theory Spec2Isabelle
  imports Complex_Main "HOL-Library.Word" "HOL-Library.Sublist"
begin

section \<open>The Number type of the host language\<close>

text \<open>
  \<^verbatim>\<open>src/js/internal/webidl.js\<close> computes on ECMAScript Numbers (binary64). A Number is
  modelled by its kind: not-a-number, the two infinities, negative zero, or a finite value
  carried as an exact rational, with \<open>Fin 0\<close> standing for \<open>+0\<close>.

  The operations below return the exact mathematical result on finite operands. On
  binary64 operands, binary64 does the same for every operation the module performs, at
  every integer \<open>bitLength\<close>, with one exception. \<open>Math.trunc\<close>, \<open>Math.abs\<close>,
  \<open>Math.sign\<close>, \<open>Math.min\<close>, \<open>Math.max\<close>, the comparisons and \<open>%\<close> never round; the
  sum \<open>i + sign\<close> in \<open>evenRound\<close> is taken with a finite \<open>i\<close> only for an \<open>x\<close> that has a
  fractional part, hence of magnitude below \<open>2^52\<close>; and \<open>x - pow2(bitLength)\<close> is taken
  for an integral \<open>x\<close> that is below \<open>pow2(bitLength)\<close> in magnitude and not below
  \<open>pow2(bitLength - 1)\<close>, so that the difference needs no more significand bits than
  \<open>x\<close> has. The exception is \<open>pow2(e) - 1\<close> in the upper bound, which is not
  representable from \<open>e = 54\<close> on: that difference is rounded, by \<open>binary64_integral\<close>
  below. Every binary64 value is a rational, so a statement proved for all \<open>Fin r\<close>
  covers all finite Numbers.
\<close>

datatype number = NaN | PosInf | NegInf | NegZero | Fin rat

text \<open>\<open>Number.isNaN(x)\<close>.\<close>

definition NumberIsNaN :: "number \<Rightarrow> bool" where
  "NumberIsNaN x = (x = NaN)"

text \<open>Both zeros compare equal; \<open>plus_zero\<close> forgets the sign of a zero.\<close>

definition plus_zero :: "number \<Rightarrow> number" where
  "plus_zero x = (if x = NegZero then Fin 0 else x)"

text \<open>\<open>x === y\<close> on Numbers: false when either side is NaN, true for \<open>-0 === +0\<close>.\<close>

definition strict_eq :: "number \<Rightarrow> number \<Rightarrow> bool" where
  "strict_eq x y = (x \<noteq> NaN \<and> y \<noteq> NaN \<and> plus_zero x = plus_zero y)"

text \<open>\<open>x < y\<close> on Numbers: false when either side is NaN; the zeros are equal.\<close>

fun js_lt :: "number \<Rightarrow> number \<Rightarrow> bool" where
  "js_lt NaN y = False"
| "js_lt x NaN = False"
| "js_lt PosInf y = False"
| "js_lt x NegInf = False"
| "js_lt NegInf y = True"
| "js_lt x PosInf = True"
| "js_lt NegZero NegZero = False"
| "js_lt NegZero (Fin b) = (0 < b)"
| "js_lt (Fin a) NegZero = (a < 0)"
| "js_lt (Fin a) (Fin b) = (a < b)"

text \<open>\<open>x > y\<close> and \<open>x >= y\<close>.\<close>

definition js_gt :: "number \<Rightarrow> number \<Rightarrow> bool" where
  "js_gt x y = js_lt y x"

definition js_ge :: "number \<Rightarrow> number \<Rightarrow> bool" where
  "js_ge x y = (x \<noteq> NaN \<and> y \<noteq> NaN \<and> \<not> js_lt x y)"

text \<open>Truncation of a rational toward zero.\<close>

definition rat_trunc :: "rat \<Rightarrow> int" where
  "rat_trunc q = (if 0 \<le> q then \<lfloor>q\<rfloor> else \<lceil>q\<rceil>)"

text \<open>\<open>Math.trunc\<close>: a negative value above \<open>-1\<close> truncates to \<open>-0\<close>.\<close>

fun MathTrunc :: "number \<Rightarrow> number" where
  "MathTrunc (Fin r) =
     (if r < 0 \<and> rat_trunc r = 0 then NegZero else Fin (of_int (rat_trunc r)))"
| "MathTrunc x = x"

fun MathAbs :: "number \<Rightarrow> number" where
  "MathAbs NaN = NaN"
| "MathAbs PosInf = PosInf"
| "MathAbs NegInf = PosInf"
| "MathAbs NegZero = Fin 0"
| "MathAbs (Fin r) = Fin \<bar>r\<bar>"

fun MathSign :: "number \<Rightarrow> number" where
  "MathSign NaN = NaN"
| "MathSign PosInf = Fin 1"
| "MathSign NegInf = Fin (- 1)"
| "MathSign NegZero = NegZero"
| "MathSign (Fin r) = Fin (sgn r)"

text \<open>\<open>Math.max\<close> and \<open>Math.min\<close> of two Numbers; \<open>+0\<close> counts as larger than \<open>-0\<close>.\<close>

definition MathMax :: "number \<Rightarrow> number \<Rightarrow> number" where
  "MathMax x y =
     (if x = NaN \<or> y = NaN then NaN
      else if js_lt x y then y
      else if js_lt y x then x
      else if x = NegZero then y else x)"

definition MathMin :: "number \<Rightarrow> number \<Rightarrow> number" where
  "MathMin x y =
     (if x = NaN \<or> y = NaN then NaN
      else if js_lt x y then x
      else if js_lt y x then y
      else if x = NegZero then x else y)"

text \<open>Unary minus, \<open>x + y\<close> and \<open>x - y\<close>.\<close>

fun js_neg :: "number \<Rightarrow> number" where
  "js_neg NaN = NaN"
| "js_neg PosInf = NegInf"
| "js_neg NegInf = PosInf"
| "js_neg NegZero = Fin 0"
| "js_neg (Fin r) = (if r = 0 then NegZero else Fin (- r))"

fun js_add :: "number \<Rightarrow> number \<Rightarrow> number" where
  "js_add NaN y = NaN"
| "js_add x NaN = NaN"
| "js_add PosInf NegInf = NaN"
| "js_add NegInf PosInf = NaN"
| "js_add PosInf y = PosInf"
| "js_add NegInf y = NegInf"
| "js_add x PosInf = PosInf"
| "js_add x NegInf = NegInf"
| "js_add NegZero NegZero = NegZero"
| "js_add NegZero (Fin b) = Fin b"
| "js_add (Fin a) NegZero = Fin a"
| "js_add (Fin a) (Fin b) = Fin (a + b)"

definition js_sub :: "number \<Rightarrow> number \<Rightarrow> number" where
  "js_sub x y = js_add x (js_neg y)"

text \<open>
  \<open>x % y\<close>: the remainder of the division truncated toward zero. The result takes the sign
  of the dividend \<open>x\<close>, also when it is a zero.
\<close>

fun js_rem :: "number \<Rightarrow> number \<Rightarrow> number" where
  "js_rem NaN y = NaN"
| "js_rem x NaN = NaN"
| "js_rem PosInf y = NaN"
| "js_rem NegInf y = NaN"
| "js_rem x NegZero = NaN"
| "js_rem x PosInf = x"
| "js_rem x NegInf = x"
| "js_rem NegZero (Fin b) = (if b = 0 then NaN else NegZero)"
| "js_rem (Fin a) (Fin b) =
     (if b = 0 then NaN
      else let r = a - b * of_int (rat_trunc (a / b))
           in if r = 0 then (if a < 0 then NegZero else Fin 0) else Fin r)"

text \<open>
  \<open>a << b\<close> on integer operands: the left operand is taken as a 32-bit word, the shift
  count is \<open>b\<close> modulo 32, the result is read back as a signed 32-bit integer.
\<close>

definition shl32 :: "int \<Rightarrow> int \<Rightarrow> int" where
  "shl32 a b = sint (push_bit (nat (b mod 32)) (word_of_int a :: 32 word))"

text \<open>
  \<open>Math.pow(2, e)\<close> for an integer \<open>e\<close>: exact between the smallest subnormal and the
  largest binary exponent, \<open>+Infinity\<close> above, \<open>+0\<close> below.
\<close>

definition MathPow2 :: "int \<Rightarrow> number" where
  "MathPow2 e =
     (if 1023 < e then PosInf
      else if 0 \<le> e then Fin (2 ^ nat e)
      else if e < - 1074 then Fin 0
      else Fin (1 / 2 ^ nat (- e)))"

definition NumberMAX_SAFE_INTEGER :: number where
  "NumberMAX_SAFE_INTEGER = Fin 9007199254740991"

definition NumberMIN_SAFE_INTEGER :: number where
  "NumberMIN_SAFE_INTEGER = Fin (- 9007199254740991)"

text \<open>
  Rounding of an integer to binary64, to the nearest value with ties to the even
  significand. An integer of at most 53 bits is a binary64 value. A longer one is cut to
  53 bits: \<open>u\<close> is the weight of the last bit kept, \<open>m\<close> the rounded significand; a
  result of magnitude \<open>2^1024\<close> is infinite.
\<close>

function bit_length :: "int \<Rightarrow> nat" where
  "bit_length k = (if k \<le> 0 then 0 else Suc (bit_length (k div 2)))"
  by pat_completeness auto
termination
  by (relation "measure nat") auto

declare bit_length.simps [simp del]

definition binary64_of_int :: "int \<Rightarrow> number" where
  "binary64_of_int k =
     (let n = bit_length \<bar>k\<bar>
      in if n \<le> 53 then Fin (of_int k)
         else (let u = 2 ^ (n - 53);
                   q = \<bar>k\<bar> div u;
                   r = \<bar>k\<bar> mod u;
                   m = (if 2 * r < u then q
                        else if u < 2 * r then q + 1
                        else if even q then q else q + 1)
               in if 2 ^ 1024 \<le> m * u then (if k < 0 then NegInf else PosInf)
                  else Fin (of_int (sgn k * (m * u)))))"

text \<open>
  The binary64 value of an exact result that is an integer or not finite. (The module
  rounds no other result; a finite result that is not an integer is left as it is.)
\<close>

fun binary64_integral :: "number \<Rightarrow> number" where
  "binary64_integral (Fin r) = (if r = of_int \<lfloor>r\<rfloor> then binary64_of_int \<lfloor>r\<rfloor> else Fin r)"
| "binary64_integral x = x"

section \<open>Arithmetic helpers of the module\<close>

text \<open>\<open>const integerPart = MathTrunc\<close>.\<close>

definition integerPart :: "number \<Rightarrow> number" where
  "integerPart = MathTrunc"

text \<open>
  \<^verbatim>\<open>
  function evenRound(x) {
    const i = integerPart(x) + 0;
    const reminder = MathAbs(x % 1);
    const sign = MathSign(i);
    if (reminder === 0.5) { return i % 2 === 0 ? i : i + sign; }
    const r = reminder < 0.5 ? i : i + sign;
    if (r === 0) { return 0; }
    return r;
  }\<close>
\<close>

definition evenRound :: "number \<Rightarrow> number" where
  "evenRound x =
     (let i = js_add (integerPart x) (Fin 0);
          reminder = MathAbs (js_rem x (Fin 1));
          sign = MathSign i
      in if strict_eq reminder (Fin (1 / 2))
         then (if strict_eq (js_rem i (Fin 2)) (Fin 0) then i else js_add i sign)
         else (let r = (if js_lt reminder (Fin (1 / 2)) then i else js_add i sign)
               in if strict_eq r (Fin 0) then Fin 0 else r))"

text \<open>
  \<^verbatim>\<open>
  function pow2(exponent) {
    if (exponent < 31) { return 1 << exponent; }
    if (exponent === 31) { return 0x8000_0000; }
    if (exponent === 32) { return 0x1_0000_0000; }
    return MathPow(2, exponent);
  }\<close>
  The exponent is an integer. \<open>pow2_with\<close> takes the shift operator as an argument, so
  that statements can say where the result depends on it; \<open>pow2\<close> is the function of the
  module, with the 32-bit shift.
\<close>

definition pow2_with :: "(int \<Rightarrow> int \<Rightarrow> int) \<Rightarrow> int \<Rightarrow> number" where
  "pow2_with shl exponent =
     (if exponent < 31 then Fin (of_int (shl 1 exponent))
      else if exponent = 31 then Fin 2147483648
      else if exponent = 32 then Fin 4294967296
      else MathPow2 exponent)"

definition pow2 :: "int \<Rightarrow> number" where
  "pow2 = pow2_with shl32"

text \<open>
  \<^verbatim>\<open>
  function modulo(x, y) {
    const r = x % y;
    if (r === 0) { return 0; }
    return r;
  }\<close>
\<close>

definition modulo :: "number \<Rightarrow> number \<Rightarrow> number" where
  "modulo x y = (let r = js_rem x y in if strict_eq r (Fin 0) then Fin 0 else r)"

section \<open>Values, options and errors\<close>

text \<open>
  A value of the host language. An object (callable or not) is a reference; what the
  converters observe of it goes through the host operations of the record \<open>host\<close> below.
\<close>

type_synonym obj_ref = nat

datatype jsval =
    Undefined
  | Null
  | Boolean bool
  | Number number
  | String string
  | Symbol string
  | BigInt int
  | Object obj_ref

text \<open>
  Modelled from the spec: the classes \<open>ERR_INVALID_ARG_VALUE\<close> and
  \<open>ERR_INVALID_ARG_TYPE\<close> of \<open>internal/errors\<close> are not part of the sources.
  \<open>new ERR_INVALID_ARG_VALUE(name, value)\<close> and
  \<open>new ERR_INVALID_ARG_TYPE(name, expected, actual)\<close> are kept as constructors with
  their arguments; the error-kind code of each is the name of its class.

  The other two errors are those of the source. \<open>Coded_TypeError message code\<close> is the
  result of \<open>codedTypeError\<close>: a \<open>TypeError\<close> with a message and a \<open>code\<close> property.
  \<open>Host_TypeError\<close> is a \<open>TypeError\<close> raised by the language itself (a property read
  on \<open>null\<close>), which has no \<open>code\<close>.
\<close>

datatype error =
    ERR_INVALID_ARG_VALUE string jsval
  | ERR_INVALID_ARG_TYPE string string jsval
  | Coded_TypeError string string
  | Host_TypeError

fun error_code :: "error \<Rightarrow> string option" where
  "error_code (ERR_INVALID_ARG_VALUE name v) = Some ''ERR_INVALID_ARG_VALUE''"
| "error_code (ERR_INVALID_ARG_TYPE name expected v) = Some ''ERR_INVALID_ARG_TYPE''"
| "error_code (Coded_TypeError message code) = Some code"
| "error_code Host_TypeError = None"


text \<open>
  The options record. A field that is absent (or \<open>undefined\<close>) is \<open>None\<close>.
  \<open>kEmptyObject\<close>, the default of every \<open>opts\<close> parameter, is the empty object of
  \<open>node/util\<close>: it has no field.
\<close>

record options =
  opt_signed :: "bool option"
  opt_enforceRange :: "bool option"
  opt_clamp :: "bool option"
  opt_context :: "string option"
  opt_prefix :: "string option"
  opt_code :: "string option"

definition kEmptyObject :: options where
  "kEmptyObject = \<lparr> opt_signed = None, opt_enforceRange = None, opt_clamp = None,
                    opt_context = None, opt_prefix = None, opt_code = None \<rparr>"

text \<open>A destructured flag with its default: \<open>const { signed = false } = options\<close>.\<close>

definition flag :: "bool option \<Rightarrow> bool" where
  "flag f = (case f of None \<Rightarrow> False | Some b \<Rightarrow> b)"

section \<open>The integer converter\<close>

text \<open>
  The bounds computed at the head of \<open>convertToInt\<close> (source lines 90 to 111), from the
  destructured \<open>signed\<close> and \<open>bitLength\<close>. The values of \<open>pow2\<close> are integers or
  \<open>+Infinity\<close>; \<open>pow2(e) - 1\<close> is the exact difference rounded to binary64.
\<close>

definition lowerBound :: "bool \<Rightarrow> int \<Rightarrow> number" where
  "lowerBound is_signed bitLength =
     (if bitLength = 64 then (if \<not> is_signed then Fin 0 else NumberMIN_SAFE_INTEGER)
      else if \<not> is_signed then Fin 0
      else js_neg (pow2 (bitLength - 1)))"

definition upperBound :: "bool \<Rightarrow> int \<Rightarrow> number" where
  "upperBound is_signed bitLength =
     (if bitLength = 64 then NumberMAX_SAFE_INTEGER
      else if \<not> is_signed then binary64_integral (js_sub (pow2 bitLength) (Fin 1))
      else binary64_integral (js_sub (pow2 (bitLength - 1)) (Fin 1)))"

text \<open>
  \<open>convertToInt(name, value, bitLength, options)\<close> from the coerced Number on: the argument
  \<open>x0\<close> is the Number that \<open>+value\<close> (source line 114) evaluates to. The coercion itself,
  which can raise, is the first step of \<open>convertToInt_value\<close> below. \<open>Inl\<close> is a raised
  error, \<open>Inr\<close> the returned Number.
\<close>

definition convertToInt :: "string \<Rightarrow> number \<Rightarrow> int \<Rightarrow> options \<Rightarrow> error + number" where
  "convertToInt name x0 bitLength opts =
     (let is_signed = flag (opt_signed opts);
          enforceRange = flag (opt_enforceRange opts);
          clamp = flag (opt_clamp opts);
          lower = lowerBound is_signed bitLength;
          upper = upperBound is_signed bitLength;
          x = (if strict_eq x0 (Fin 0) then Fin 0 else x0)
      in if enforceRange then
           (if NumberIsNaN x \<or> strict_eq x PosInf \<or> strict_eq x NegInf
            then Inl (ERR_INVALID_ARG_VALUE name (Number x))
            else (let x1 = integerPart x
                  in if js_lt x1 lower \<or> js_gt x1 upper
                     then Inl (ERR_INVALID_ARG_VALUE name (Number x1))
                     else Inr x1))
         else if clamp \<and> \<not> NumberIsNaN x then
           Inr (evenRound (MathMin (MathMax x lower) upper))
         else if NumberIsNaN x \<or> strict_eq x (Fin 0) \<or> strict_eq x PosInf \<or> strict_eq x NegInf
           then Inr (Fin 0)
         else (let x1 = integerPart x;
                   x2 = modulo x1 (pow2 bitLength)
               in if is_signed \<and> js_ge x2 (pow2 (bitLength - 1))
                  then Inr (js_sub x2 (pow2 bitLength))
                  else Inr x2))"

section \<open>Scalar converters and exceptions\<close>

text \<open>
  The operations of the host that the converters call on arbitrary values: \<open>String(V)\<close>;
  the parts of the coercion \<open>+V\<close> that depend on the host; and, for an object \<open>V\<close>, the
  expression \<open>V?.[SymbolIterator]?.()\<close>.

  An iterator is modelled by the outcomes of its successive \<open>iter?.next?.()\<close> calls.
  \<open>Res_undefined\<close> is the result \<open>undefined\<close> (also what the optional chain gives for an
  iterator that is \<open>null\<close> or has no \<open>next\<close>); \<open>Res_null\<close> is \<open>null\<close>;
  \<open>Res_object done value\<close> is any other result, with its \<open>done\<close> and \<open>value\<close>
  properties, \<open>None\<close> for a property that is missing (a result that is a primitive has
  neither); \<open>Res_raises e\<close> is a step that raises \<open>e\<close> before the element converter is
  called (a \<open>next\<close> that throws, the language's \<open>TypeError\<close> for a \<open>next\<close> that is
  not callable, or a getter of \<open>done\<close> or \<open>value\<close> that throws).

  The expression \<open>V?.[SymbolIterator]?.()\<close> has three outcomes: it is \<open>undefined\<close>
  (\<open>No_iterator\<close>: the property is \<open>undefined\<close> or \<open>null\<close>, or the method returns
  \<open>undefined\<close>); it raises (\<open>Iterator_raises\<close>: the method throws, or the language's
  \<open>TypeError\<close> for a property that is not callable); or it gives an iterator.
\<close>

datatype next_result =
    Res_undefined
  | Res_null
  | Res_object "jsval option" "jsval option"
  | Res_raises error

type_synonym iterator = "nat \<Rightarrow> next_result"

datatype iterator_outcome =
    No_iterator
  | Iterator_raises error
  | Iterator iterator

record host =
  ToString :: "jsval \<Rightarrow> string"
  StringToNumber :: "string \<Rightarrow> number"
  ObjectToNumber :: "obj_ref \<Rightarrow> error + number"
  GetIterator :: "obj_ref \<Rightarrow> iterator_outcome"

text \<open>
  \<open>+V\<close>, the coercion \<open>ToNumber\<close> of the language: \<open>undefined\<close> is NaN, \<open>null\<close> is
  \<open>+0\<close>, \<open>true\<close> is 1 and \<open>false\<close> is \<open>+0\<close>, a Number is itself, and a Symbol or a
  BigInt raises the language's \<open>TypeError\<close>. A string is parsed by the host; an object
  is converted through its own methods, which return a Number or raise.
\<close>

fun ToNumber :: "host \<Rightarrow> jsval \<Rightarrow> error + number" where
  "ToNumber h Undefined = Inr NaN"
| "ToNumber h Null = Inr (Fin 0)"
| "ToNumber h (Boolean b) = Inr (Fin (if b then 1 else 0))"
| "ToNumber h (Number n) = Inr n"
| "ToNumber h (String s) = Inr (StringToNumber h s)"
| "ToNumber h (Symbol d) = Inl Host_TypeError"
| "ToNumber h (BigInt i) = Inl Host_TypeError"
| "ToNumber h (Object r) = ObjectToNumber h r"

text \<open>
  \<open>convertToInt(name, value, bitLength, options)\<close> on any value: \<open>let x = +value\<close> at
  source line 114 raises what the coercion raises; everything before it is free of
  effects, and the rest is \<open>convertToInt\<close> above on the coerced Number.
\<close>

definition convertToInt_value ::
  "host \<Rightarrow> string \<Rightarrow> jsval \<Rightarrow> int \<Rightarrow> options \<Rightarrow> error + number" where
  "convertToInt_value h name value bitLength opts =
     (case ToNumber h value of
        Inl e \<Rightarrow> Inl e
      | Inr x0 \<Rightarrow> convertToInt name x0 bitLength opts)"

text \<open>\<open>converters.any\<close>.\<close>

definition any :: "jsval \<Rightarrow> jsval" where
  "any V = V"

text \<open>
  \<^verbatim>\<open>
  converters.DOMString = function DOMString(V) {
    if (typeof V === "symbol") { throw new ERR_INVALID_ARG_VALUE("value", V); }
    return String(V);
  };\<close>
\<close>

fun DOMString :: "host \<Rightarrow> jsval \<Rightarrow> error + string" where
  "DOMString h (Symbol d) = Inl (ERR_INVALID_ARG_VALUE ''value'' (Symbol d))"
| "DOMString h V = Inr (ToString h V)"

definition codedTypeError :: "string \<Rightarrow> string \<Rightarrow> error" where
  "codedTypeError message code = Coded_TypeError message code"

text \<open>
  \<^verbatim>\<open>
  function makeException(message, opts = kEmptyObject) {
    const prefix = opts.prefix ? opts.prefix + ": " : "";
    const context = opts.context?.length === 0 ? "" : (opts.context ?? "Value") + " ";
    return codedTypeError(`${prefix}${context}${message}`,
                          { code: opts.code || "ERR_INVALID_ARG_TYPE" });
  }\<close>
  A string is truthy when it is not empty.
\<close>

definition makeException :: "string \<Rightarrow> options \<Rightarrow> error" where
  "makeException message opts =
     (let prefix = (case opt_prefix opts of
                      None \<Rightarrow> []
                    | Some p \<Rightarrow> if p = [] then [] else p @ '': '');
          context = (case opt_context opts of
                       None \<Rightarrow> ''Value'' @ '' ''
                     | Some c \<Rightarrow> if length c = 0 then [] else c @ '' '');
          code = (case opt_code opts of
                    None \<Rightarrow> ''ERR_INVALID_ARG_TYPE''
                  | Some c \<Rightarrow> if c = [] then ''ERR_INVALID_ARG_TYPE'' else c)
      in codedTypeError (prefix @ context @ message) code)"

text \<open>
  \<^verbatim>\<open>
  function createEnumConverter(name, values) {
    const E = new SafeSet(values);
    return function (V, opts = kEmptyObject) {
      const S = String(V);
      if (!E.has(S)) {
        throw makeException(`value '${S}' is not a valid enum value of type ${name}.`,
                            { __proto__: null, ...opts, code: "ERR_INVALID_ARG_VALUE" });
      }
      return S;
    };
  }\<close>
\<close>

definition createEnumConverter ::
  "host \<Rightarrow> string \<Rightarrow> string list \<Rightarrow> jsval \<Rightarrow> options \<Rightarrow> error + string" where
  "createEnumConverter h name values =
     (let E = set values
      in (\<lambda>V opts.
            let S = ToString h V
            in if S \<notin> E
               then Inl (makeException
                           (''value '' @ [CHR 0x27] @ S @ [CHR 0x27]
                              @ '' is not a valid enum value of type '' @ name @ ''.'')
                           (opts\<lparr>opt_code := Some ''ERR_INVALID_ARG_VALUE''\<rparr>))
               else Inr S))"

text \<open>\<open>type(V)\<close>: the classification of a value.\<close>

fun type :: "jsval \<Rightarrow> string" where
  "type Null = ''Null''"
| "type Undefined = ''Undefined''"
| "type (Boolean b) = ''Boolean''"
| "type (Number n) = ''Number''"
| "type (String s) = ''String''"
| "type (Symbol d) = ''Symbol''"
| "type (BigInt i) = ''BigInt''"
| "type (Object r) = ''Object''"

section \<open>The sequence converter\<close>

text \<open>The decimal form of an array length, as a template literal prints it.\<close>

fun decimal :: "nat \<Rightarrow> string" where
  "decimal n =
     (if n < 10 then [char_of (48 + n)]
      else decimal (n div 10) @ [char_of (48 + n mod 10)])"

declare decimal.simps [simp del]

text \<open>\<open>`${opts.context}`\<close>: an absent context prints as the word \<open>undefined\<close>.\<close>

definition template_context :: "string option \<Rightarrow> string" where
  "template_context c = (case c of None \<Rightarrow> ''undefined'' | Some s \<Rightarrow> s)"

text \<open>
  The options given to the element converter:
  \<open>{ __proto__: null, ...opts, context: `${opts.context}[${array.length}]` }\<close>.
\<close>

definition element_opts :: "options \<Rightarrow> nat \<Rightarrow> options" where
  "element_opts opts n =
     opts\<lparr>opt_context := Some (template_context (opt_context opts) @ ''['' @ decimal n @ '']'')\<rparr>"

text \<open>
  The \<open>while (true)\<close> loop of the converter, on the iterator \<open>iter\<close> and the array built so
  far. A source iterator need not end, so the loop takes fuel: \<open>None\<close> says that the
  fuel ran out with the loop still running.
  \<^verbatim>\<open>
      const res = iter?.next?.();
      if (res === undefined) { throw makeException("can not be converted to sequence.", opts); }
      if (res.done === true) break;
      const val = converter(res.value, { __proto__: null, ...opts,
                                         context: `${opts.context}[${array.length}]` });
      ArrayPrototypePush(array, val);\<close>
\<close>

text \<open>Reading a property of a result: a missing property reads as \<open>undefined\<close>.\<close>

definition property :: "jsval option \<Rightarrow> jsval" where
  "property p = (case p of None \<Rightarrow> Undefined | Some v \<Rightarrow> v)"

fun sequence_loop ::
  "nat \<Rightarrow> (jsval \<Rightarrow> options \<Rightarrow> error + 'a) \<Rightarrow> options \<Rightarrow> iterator \<Rightarrow> 'a list
     \<Rightarrow> (error + 'a list) option" where
  "sequence_loop 0 converter opts iter array = None"
| "sequence_loop (Suc fuel) converter opts iter array =
     (case iter 0 of
        Res_raises e \<Rightarrow> Some (Inl e)
      | Res_undefined \<Rightarrow> Some (Inl (makeException ''can not be converted to sequence.'' opts))
      | Res_null \<Rightarrow> Some (Inl Host_TypeError)
      | Res_object done val \<Rightarrow>
          if property done = Boolean True then Some (Inr array)
          else (case converter (property val) (element_opts opts (length array)) of
                  Inl e \<Rightarrow> Some (Inl e)
                | Inr v \<Rightarrow> sequence_loop fuel converter opts (\<lambda>k. iter (Suc k)) (array @ [v])))"

text \<open>
  \<^verbatim>\<open>
  function createSequenceConverter(converter) {
    return function (V, opts = kEmptyObject) {
      if (type(V) !== "Object") { throw makeException("can not be converted to sequence.", opts); }
      const iter = V?.[SymbolIterator]?.();
      if (iter === undefined) { throw makeException("can not be converted to sequence.", opts); }
      const array = [];
      while (true) { ... }
      return array;
    };
  }\<close>
\<close>

definition createSequenceConverter ::
  "host \<Rightarrow> nat \<Rightarrow> (jsval \<Rightarrow> options \<Rightarrow> error + 'a) \<Rightarrow> jsval \<Rightarrow> options
     \<Rightarrow> (error + 'a list) option" where
  "createSequenceConverter h fuel converter V opts =
     (if type V \<noteq> ''Object''
      then Some (Inl (makeException ''can not be converted to sequence.'' opts))
      else (case V of
              Object r \<Rightarrow>
                (case GetIterator h r of
                   Iterator_raises e \<Rightarrow> Some (Inl e)
                 | No_iterator \<Rightarrow>
                     Some (Inl (makeException ''can not be converted to sequence.'' opts))
                 | Iterator iter \<Rightarrow> sequence_loop fuel converter opts iter [])
            | _ \<Rightarrow> Some (Inl (makeException ''can not be converted to sequence.'' opts))))"

section \<open>Reference definitions and example inputs\<close>

text \<open>
  The range of the target integer type as the specification gives it: \<open>[0, 2^bitLength - 1]\<close>
  unsigned, \<open>[-2^(bitLength-1), 2^(bitLength-1) - 1]\<close> signed, and the safe-integer bounds
  at \<open>bitLength = 64\<close>.
\<close>

definition range_low :: "bool \<Rightarrow> int \<Rightarrow> int" where
  "range_low is_signed b =
     (if b = 64 then (if is_signed then - (2 ^ 53 - 1) else 0)
      else if is_signed then - (2 ^ nat (b - 1)) else 0)"

definition range_high :: "bool \<Rightarrow> int \<Rightarrow> int" where
  "range_high is_signed b =
     (if b = 64 then 2 ^ 53 - 1
      else if is_signed then 2 ^ nat (b - 1) - 1 else 2 ^ nat b - 1)"

text \<open>
  Rounding to the nearest integer with ties to the even neighbour, as the specification
  words it.
\<close>

definition round_half_even :: "rat \<Rightarrow> int" where
  "round_half_even q =
     (let f = \<lfloor>q\<rfloor>; d = q - of_int f
      in if d < 1 / 2 then f
         else if 1 / 2 < d then f + 1
         else if even f then f else f + 1)"

text \<open>
  Two's-complement wrap-around as the specification words it: reduction modulo
  \<open>2^bitLength\<close> with a non-negative result, then, when signed, a reduced value of at least
  \<open>2^(bitLength-1)\<close> moves down by \<open>2^bitLength\<close>.
\<close>

definition wrap :: "bool \<Rightarrow> int \<Rightarrow> int \<Rightarrow> int" where
  "wrap is_signed b t =
     (let m = t mod 2 ^ nat b
      in if is_signed \<and> 2 ^ nat (b - 1) \<le> m then m - 2 ^ nat b else m)"

text \<open>A Number that is neither NaN nor infinite.\<close>

fun finite_number :: "number \<Rightarrow> bool" where
  "finite_number NegZero = True"
| "finite_number (Fin r) = True"
| "finite_number x = False"

text \<open>A Number that is an integer or an infinity.\<close>

fun integral_or_infinite :: "number \<Rightarrow> bool" where
  "integral_or_infinite (Fin r) = (r = of_int \<lfloor>r\<rfloor>)"
| "integral_or_infinite PosInf = True"
| "integral_or_infinite NegInf = True"
| "integral_or_infinite x = False"

text \<open>
  The remainder of the integer division truncated toward zero, which is what \<open>%\<close>
  computes on integral Numbers: it has the sign of the dividend.
\<close>

definition trunc_rem :: "int \<Rightarrow> int \<Rightarrow> int" where
  "trunc_rem t p = sgn t * (\<bar>t\<bar> mod \<bar>p\<bar>)"

text \<open>
  What the wrapping path of \<open>convertToInt\<close> computes on the truncated value, in
  integers: as \<open>wrap\<close>, with the truncated remainder in place of the modulo.
\<close>

definition wrap_trunc :: "bool \<Rightarrow> int \<Rightarrow> int \<Rightarrow> int" where
  "wrap_trunc is_signed b t =
     (let m = trunc_rem t (2 ^ nat b)
      in if is_signed \<and> 2 ^ nat (b - 1) \<le> m then m - 2 ^ nat b else m)"

text \<open>
  What \<open>evenRound\<close> computes on a finite Number, in integers: the truncated value
  \<open>t\<close>, or \<open>t\<close> moved one step away from zero by the sign of \<open>t\<close>.
\<close>

definition evenRound_int :: "rat \<Rightarrow> int" where
  "evenRound_int q =
     (let t = rat_trunc q; f = \<bar>q - of_int t\<bar>
      in if f = 1 / 2 then (if even t then t else t + sgn t)
         else if f < 1 / 2 then t else t + sgn t)"

text \<open>
  The element converter applied to a list of (value, options) pairs in order, stopping at
  the first error.
\<close>

fun convert_all ::
  "(jsval \<Rightarrow> options \<Rightarrow> error + 'a) \<Rightarrow> (jsval \<times> options) list \<Rightarrow> 'a list \<Rightarrow> error + 'a list" where
  "convert_all converter [] array = Inr array"
| "convert_all converter ((V, opts) # rest) array =
     (case converter V opts of
        Inl e \<Rightarrow> Inl e
      | Inr v \<Rightarrow> convert_all converter rest (array @ [v]))"

text \<open>
  The integer that truncation toward zero gives for a finite Number (zero for a zero of
  either sign).
\<close>

definition truncated :: "number \<Rightarrow> int" where
  "truncated x = (case x of Fin r \<Rightarrow> rat_trunc r | _ \<Rightarrow> 0)"

text \<open>
  A host for the examples. \<open>String(V)\<close> is given for strings, \<open>undefined\<close>, \<open>null\<close>,
  booleans and symbols as the language defines it; the examples apply it to no other
  value, and they coerce no string to a Number. Every object coerces to NaN, as a plain
  object does. Object 0 has an iterator whose first \<open>next()\<close> returns the empty object
  \<open>{}\<close> and whose later calls return \<open>{ done: true }\<close>; object 1 has an iterator whose
  \<open>next()\<close> returns \<open>null\<close>; object 2 is an iterable over the two strings \<open>"p"\<close>,
  \<open>"q"\<close>; object 3 has an iterator whose \<open>next()\<close> returns \<open>undefined\<close>; object 4
  has an iterator whose first \<open>next()\<close> yields \<open>"p"\<close> and whose later calls return
  \<open>undefined\<close>; object 5 has a \<open>Symbol.iterator\<close> property that is not callable;
  object 6 has an iterator whose first \<open>next()\<close> yields \<open>"p"\<close> and whose later calls
  return \<open>null\<close>; object 8 has an iterator whose first \<open>next()\<close> yields \<open>"p"\<close> and
  whose \<open>next\<close> is afterwards not callable; every other object has no
  \<open>Symbol.iterator\<close> method.
\<close>

fun example_ToString :: "jsval \<Rightarrow> string" where
  "example_ToString (String s) = s"
| "example_ToString Undefined = ''undefined''"
| "example_ToString Null = ''null''"
| "example_ToString (Boolean b) = (if b then ''true'' else ''false'')"
| "example_ToString (Symbol d) = ''Symbol('' @ d @ '')''"
| "example_ToString V = []"

definition iter_shapeless :: iterator where
  "iter_shapeless k = (if k = 0 then Res_object None None
                       else Res_object (Some (Boolean True)) None)"

definition iter_null :: iterator where
  "iter_null k = Res_null"

definition iter_pq :: iterator where
  "iter_pq k = (if k = 0 then Res_object (Some (Boolean False)) (Some (String ''p''))
                else if k = 1 then Res_object (Some (Boolean False)) (Some (String ''q''))
                else Res_object (Some (Boolean True)) None)"

definition iter_undefined :: iterator where
  "iter_undefined k = Res_undefined"

definition iter_p_then_undefined :: iterator where
  "iter_p_then_undefined k =
     (if k = 0 then Res_object (Some (Boolean False)) (Some (String ''p'')) else Res_undefined)"

definition iter_p_then_null :: iterator where
  "iter_p_then_null k =
     (if k = 0 then Res_object (Some (Boolean False)) (Some (String ''p'')) else Res_null)"

definition iter_p_then_raises :: iterator where
  "iter_p_then_raises k =
     (if k = 0 then Res_object (Some (Boolean False)) (Some (String ''p''))
      else Res_raises Host_TypeError)"

definition example_host :: host where
  "example_host =
     \<lparr> ToString = example_ToString,
       StringToNumber = (\<lambda>s. NaN),
       ObjectToNumber = (\<lambda>r. Inr NaN),
       GetIterator = (\<lambda>r. if r = 0 then Iterator iter_shapeless
                           else if r = 1 then Iterator iter_null
                           else if r = 2 then Iterator iter_pq
                           else if r = 3 then Iterator iter_undefined
                           else if r = 4 then Iterator iter_p_then_undefined
                           else if r = 5 then Iterator_raises Host_TypeError
                           else if r = 6 then Iterator iter_p_then_null
                           else if r = 8 then Iterator iter_p_then_raises
                           else No_iterator) \<rparr>"

text \<open>
  How the loop reads one result of \<open>next()\<close>: \<open>completes\<close> when its \<open>done\<close> property is
  \<open>true\<close>, \<open>yields\<close> when it is a non-null result with any other \<open>done\<close> (or none), in
  which case \<open>yielded\<close> is what reading its \<open>value\<close> property gives.
\<close>

fun completes :: "next_result \<Rightarrow> bool" where
  "completes (Res_object d v) = (property d = Boolean True)"
| "completes res = False"

fun yields :: "next_result \<Rightarrow> bool" where
  "yields (Res_object d v) = (property d \<noteq> Boolean True)"
| "yields res = False"

fun yielded :: "next_result \<Rightarrow> jsval" where
  "yielded (Res_object d v) = property v"
| "yielded res = Undefined"

text \<open>
  Element converters for the examples: \<open>converters.any\<close> as an element converter, and a
  converter that returns the value together with the options it was called with.
\<close>

definition any_converter :: "jsval \<Rightarrow> options \<Rightarrow> error + jsval" where
  "any_converter V opts = Inr (any V)"

definition recording_converter :: "jsval \<Rightarrow> options \<Rightarrow> error + (jsval \<times> options)" where
  "recording_converter V opts = Inr (V, opts)"

section \<open>Powers of two\<close>

lemma pow2_small:
  "pow2 7 = Fin 128" "pow2 8 = Fin 256" "pow2 15 = Fin 32768" "pow2 16 = Fin 65536"
  by (simp_all add: pow2_def pow2_with_def shl32_def)

lemma pow2_large:
  "pow2 31 = Fin 2147483648" "pow2 32 = Fin 4294967296"
  "pow2 63 = Fin 9223372036854775808" "pow2 64 = Fin 18446744073709551616"
  by (simp_all add: pow2_def pow2_with_def MathPow2_def)

lemma pow2_of_int:
  assumes "b \<in> {8, 16, 32, 64}"
  shows "pow2 b = Fin (of_int (2 ^ nat b))" and "pow2 (b - 1) = Fin (of_int (2 ^ nat (b - 1)))"
  using assms by (auto simp: pow2_small pow2_large)

text \<open>
  Claim C6. \<open>pow2(31)\<close> is \<open>0x80000000\<close> and \<open>pow2(32)\<close> is \<open>0x100000000\<close>. From
  exponent 31 on the result does not depend on the shift operator at all, and the 32-bit
  shift would indeed have given \<open>-2^31\<close> at 31 and \<open>1\<close> at 32. For every exponent that
  \<open>convertToInt\<close> passes (\<open>bitLength\<close> and \<open>bitLength - 1\<close> for \<open>bitLength\<close> in 8, 16, 32,
  64), \<open>pow2\<close> is the exact power of two.
\<close>

theorem pow2_exact:
  "pow2 31 = Fin 2147483648 \<and> pow2 32 = Fin 4294967296
   \<and> (\<forall>shl shl' e. 31 \<le> e \<longrightarrow> pow2_with shl e = pow2_with shl' e)
   \<and> shl32 1 31 = - 2147483648 \<and> shl32 1 32 = 1
   \<and> (\<forall>b \<in> {8, 16, 32, 64}. pow2 b = Fin (2 ^ nat b) \<and> pow2 (b - 1) = Fin (2 ^ nat (b - 1)))"
proof -
  have shift_free: "\<forall>shl shl' e. 31 \<le> e \<longrightarrow> pow2_with shl e = pow2_with shl' e"
    by (simp add: pow2_with_def)
  have overflow: "shl32 1 31 = - 2147483648" "shl32 1 32 = 1"
    by (simp_all add: shl32_def)
  have used: "\<forall>b \<in> {8, 16, 32, 64}. pow2 b = Fin (2 ^ nat b) \<and> pow2 (b - 1) = Fin (2 ^ nat (b - 1))"
    by (simp add: pow2_small pow2_large)
  from shift_free overflow used show ?thesis
    by (simp only: pow2_large simp_thms)
qed

theorem pow2_exact_witness:
  "(31::int) \<le> 31 \<and> pow2_with (\<lambda>a b. 0) 31 = pow2_with shl32 31
   \<and> (8::int) \<in> {8, 16, 32, 64} \<and> pow2 8 = Fin (2 ^ 8) \<and> pow2 (8 - 1) = Fin (2 ^ 7)"
  using pow2_exact by simp

section \<open>Truncation and remainder\<close>

lemma rat_trunc_of_int [simp]: "rat_trunc (of_int k) = k"
  by (simp add: rat_trunc_def)

lemma rat_trunc_zero [simp]: "rat_trunc 0 = 0"
  by (simp add: rat_trunc_def)

lemma rat_trunc_nonneg: "0 \<le> q \<Longrightarrow> 0 \<le> rat_trunc q"
  by (simp add: rat_trunc_def)

lemma rat_trunc_divide:
  assumes "0 < p"
  shows "rat_trunc (of_int t / of_int p) = sgn t * (\<bar>t\<bar> div p)"
proof (cases "0 \<le> t")
  case True
  then have "0 \<le> (of_int t / of_int p :: rat)" using assms by simp
  then have "rat_trunc (of_int t / of_int p) = t div p"
    by (simp add: rat_trunc_def floor_divide_of_int_eq)
  with True show ?thesis by (cases "t = 0") simp_all
next
  case False
  then have neg: "(of_int t / of_int p :: rat) < 0" using assms by (simp add: divide_neg_pos)
  have "\<lceil>of_int t / of_int p :: rat\<rceil> = - \<lfloor>of_int (- t) / of_int p :: rat\<rfloor>"
    by (simp add: ceiling_def)
  also have "\<dots> = - ((- t) div p)"
    by (simp only: floor_divide_of_int_eq)
  finally show ?thesis using False neg by (simp add: rat_trunc_def)
qed

lemma trunc_rem_eq:
  assumes "0 < p"
  shows "t - p * (sgn t * (\<bar>t\<bar> div p)) = trunc_rem t p"
proof (cases "0 \<le> t")
  case True
  have "t mod p = t - p * (t div p)"
    by (simp add: minus_mult_div_eq_mod)
  with True assms show ?thesis
    by (cases "t = 0") (simp_all add: trunc_rem_def)
next
  case False
  have "(- t) mod p = (- t) - p * ((- t) div p)"
    by (simp add: minus_mult_div_eq_mod)
  then have "t + p * ((- t) div p) = - ((- t) mod p)"
    by linarith
  with False assms show ?thesis
    by (simp add: trunc_rem_def)
qed

lemma trunc_rem_sign:
  assumes "0 < p"
  shows "\<bar>trunc_rem t p\<bar> < p" and "0 \<le> t \<Longrightarrow> trunc_rem t p = t mod p"
    and "t < 0 \<Longrightarrow> trunc_rem t p \<le> 0" and "0 \<le> t \<Longrightarrow> 0 \<le> trunc_rem t p"
  using assms by (auto simp: trunc_rem_def abs_mult sgn_if)

lemma trunc_rem_small:
  assumes "\<bar>t\<bar> < p"
  shows "trunc_rem t p = t"
  using assms by (auto simp: trunc_rem_def sgn_if)

lemma trunc_rem_two: "trunc_rem t 2 = 0 \<longleftrightarrow> even t"
  by (auto simp: trunc_rem_def sgn_if)

lemma js_rem_int:
  assumes "0 < p"
  shows "js_rem (Fin (of_int t)) (Fin (of_int p))
           = (if trunc_rem t p = 0 then (if t < 0 then NegZero else Fin 0)
              else Fin (of_int (trunc_rem t p)))"
proof -
  have "of_int t - of_int p * of_int (rat_trunc (of_int t / of_int p))
          = (of_int (trunc_rem t p) :: rat)"
    unfolding rat_trunc_divide [OF assms] trunc_rem_eq [OF assms, symmetric] by simp
  then show ?thesis using assms by (simp add: Let_def)
qed

lemma modulo_int:
  assumes "0 < p"
  shows "modulo (integerPart (Fin q)) (Fin (of_int p)) = Fin (of_int (trunc_rem (rat_trunc q) p))"
proof (cases "q < 0 \<and> rat_trunc q = 0")
  case True
  then show ?thesis using assms
    by (simp add: integerPart_def modulo_def strict_eq_def plus_zero_def trunc_rem_def)
next
  case False
  then have "integerPart (Fin q) = Fin (of_int (rat_trunc q))"
    by (auto simp: integerPart_def)
  then have "modulo (integerPart (Fin q)) (Fin (of_int p))
               = (let r = (if trunc_rem (rat_trunc q) p = 0
                           then (if rat_trunc q < 0 then NegZero else Fin 0)
                           else Fin (of_int (trunc_rem (rat_trunc q) p)))
                  in if strict_eq r (Fin 0) then Fin 0 else r)"
    by (simp only: modulo_def js_rem_int [OF assms])
  then show ?thesis
    by (simp add: strict_eq_def plus_zero_def Let_def)
qed

section \<open>The bounds and the three paths of the integer converter\<close>

text \<open>
  For \<open>bitLength\<close> in 8, 16, 32, 64 the bounds computed by the code are those of the
  specification.
\<close>

lemma binary64_small:
  "binary64_of_int 127 = Fin 127" "binary64_of_int 255 = Fin 255"
  "binary64_of_int 32767 = Fin 32767" "binary64_of_int 65535 = Fin 65535"
  "binary64_of_int 2147483647 = Fin 2147483647" "binary64_of_int 4294967295 = Fin 4294967295"
  by code_simp+

lemma bounds_range:
  assumes "b \<in> {8, 16, 32, 64}"
  shows "lowerBound s b = Fin (of_int (range_low s b))"
    and "upperBound s b = Fin (of_int (range_high s b))"
  using assms
  by (auto simp: lowerBound_def upperBound_def range_low_def range_high_def pow2_small pow2_large
      js_sub_def NumberMAX_SAFE_INTEGER_def NumberMIN_SAFE_INTEGER_def binary64_small)

lemma range_order:
  assumes "b \<in> {8, 16, 32, 64}"
  shows "range_low s b \<le> 0" and "0 < range_high s b"
  using assms by (auto simp: range_low_def range_high_def)

lemma js_lt_MathTrunc: "js_lt (MathTrunc (Fin r)) (Fin (of_int lo)) = (rat_trunc r < lo)"
  by simp

lemma js_gt_MathTrunc: "js_gt (MathTrunc (Fin r)) (Fin (of_int hi)) = (hi < rat_trunc r)"
  by (simp add: js_gt_def)

text \<open>
  The path taken with \<open>enforceRange\<close> set.
\<close>

lemma convertToInt_enforceRange:
  assumes "b \<in> {8, 16, 32, 64}" and "flag (opt_enforceRange opts)"
  shows "convertToInt name x b opts =
           (if \<not> finite_number x then Inl (ERR_INVALID_ARG_VALUE name (Number x))
            else if truncated x < range_low (flag (opt_signed opts)) b
                    \<or> range_high (flag (opt_signed opts)) b < truncated x
            then Inl (ERR_INVALID_ARG_VALUE name (Number (integerPart (plus_zero x))))
            else Inr (integerPart (plus_zero x)))"
proof (cases x)
  case (Fin r)
  then show ?thesis
    using assms(2)
    by (simp add: convertToInt_def Let_def bounds_range [OF assms(1)] NumberIsNaN_def
        strict_eq_def plus_zero_def integerPart_def truncated_def js_gt_def)
next
  case NegZero
  then show ?thesis
    using assms
    by (auto simp add: convertToInt_def Let_def bounds_range [OF assms(1)] NumberIsNaN_def
        strict_eq_def plus_zero_def integerPart_def truncated_def js_gt_def
        range_low_def range_high_def)
qed (use assms(2) in \<open>simp_all add: convertToInt_def Let_def NumberIsNaN_def strict_eq_def plus_zero_def\<close>)

text \<open>
  The path taken with \<open>enforceRange\<close> unset and \<open>clamp\<close> set, for \<open>x\<close> other than NaN.
\<close>

lemma convertToInt_clamp:
  assumes "b \<in> {8, 16, 32, 64}" and "\<not> flag (opt_enforceRange opts)" and "flag (opt_clamp opts)"
    and "x \<noteq> NaN"
  shows "convertToInt name x b opts =
           Inr (evenRound (MathMin (MathMax (plus_zero x) (Fin (of_int (range_low (flag (opt_signed opts)) b))))
                                   (Fin (of_int (range_high (flag (opt_signed opts)) b)))))"
  using assms(2-4)
  by (cases x) (simp_all add: convertToInt_def Let_def bounds_range [OF assms(1)] NumberIsNaN_def
        strict_eq_def plus_zero_def)

lemma clamp_finite:
  assumes "x \<noteq> NaN" and "lo \<le> 0" and "0 < hi"
  shows "finite_number (MathMin (MathMax x (Fin (of_int lo))) (Fin (of_int hi)))"
  using assms by (cases x) (auto simp: MathMin_def MathMax_def)

lemma clamp_infinite:
  assumes "lo \<le> 0" and "0 < hi"
  shows "MathMin (MathMax PosInf (Fin (of_int lo))) (Fin (of_int hi)) = Fin (of_int hi)"
    and "MathMin (MathMax NegInf (Fin (of_int lo))) (Fin (of_int hi)) = Fin (of_int lo)"
  using assms by (auto simp: MathMin_def MathMax_def)

lemma clamp_value:
  assumes "x \<noteq> NaN" and "lo \<le> 0" and "0 < hi"
  shows "\<exists>c. MathMin (MathMax (plus_zero x) (Fin (of_int lo))) (Fin (of_int hi)) = Fin c
             \<and> of_int lo \<le> c \<and> c \<le> of_int hi"
  using assms by (cases x) (auto simp: MathMin_def MathMax_def plus_zero_def)

lemma clamp_inside:
  assumes "lo \<le> k" and "k \<le> hi"
  shows "MathMin (MathMax (Fin (of_int k)) (Fin (of_int lo))) (Fin (of_int hi)) = Fin (of_int k)"
  using assms by (auto simp: MathMin_def MathMax_def)

text \<open>
  The wrapping path, on a finite Number.
\<close>

lemma convertToInt_default:
  assumes "b \<in> {8, 16, 32, 64}" and "\<not> flag (opt_enforceRange opts)"
    and "\<not> flag (opt_clamp opts)"
  shows "convertToInt name (Fin q) b opts
           = Inr (Fin (of_int (wrap_trunc (flag (opt_signed opts)) b (rat_trunc q))))"
proof (cases "q = 0")
  case True
  then show ?thesis using assms(2,3)
    by (simp add: convertToInt_def Let_def NumberIsNaN_def strict_eq_def plus_zero_def
        wrap_trunc_def trunc_rem_def)
next
  case False
  let ?P = "2 ^ nat b :: int"
  let ?m = "trunc_rem (rat_trunc q) ?P"
  have m: "modulo (integerPart (Fin q)) (pow2 b) = Fin (of_int ?m)"
    unfolding pow2_of_int(1) [OF assms(1)] by (rule modulo_int) simp
  have ge: "js_ge (Fin (of_int ?m)) (pow2 (b - 1)) = (2 ^ nat (b - 1) \<le> ?m)"
    unfolding pow2_of_int(2) [OF assms(1)] by (auto simp add: js_ge_def)
  have sub: "js_sub (Fin (of_int ?m)) (pow2 b) = Fin (of_int (?m - ?P))"
    unfolding pow2_of_int(1) [OF assms(1)] by (simp add: js_sub_def)
  from False assms(2,3) show ?thesis
    by (simp add: convertToInt_def Let_def NumberIsNaN_def strict_eq_def plus_zero_def
        m ge sub wrap_trunc_def)
qed

lemma finite_modulo:
  "finite_number x \<Longrightarrow> p \<noteq> 0 \<Longrightarrow> finite_number (modulo x (Fin p))"
  by (cases x) (simp_all add: modulo_def Let_def strict_eq_def plus_zero_def)

lemma pow2_nonzero:
  assumes "b \<in> {8, 16, 32, 64}"
  shows "\<exists>p q. pow2 b = Fin p \<and> 0 < p \<and> pow2 (b - 1) = Fin q \<and> 0 < q"
  using assms by (auto simp: pow2_small pow2_large)

lemma convertToInt_default_finite:
  assumes "b \<in> {8, 16, 32, 64}" and "\<not> flag (opt_enforceRange opts)"
    and "\<not> flag (opt_clamp opts) \<or> x = NaN"
  shows "\<exists>v. convertToInt name x b opts = Inr v \<and> finite_number v"
proof -
  obtain p q where p: "pow2 b = Fin p" "0 < p" "pow2 (b - 1) = Fin q" "0 < q"
    using pow2_nonzero [OF assms(1)] by blast
  have m: "finite_number (modulo (integerPart y) (Fin p))" if "finite_number y" for y
    using that p(2) by (cases y) (simp_all add: integerPart_def finite_modulo)
  have s: "finite_number (js_sub z (Fin p))" if "finite_number z" for z
    using that p(2) by (cases z) (simp_all add: js_sub_def)
  show ?thesis
    using assms(2,3) m [of x] s [of "modulo (integerPart x) (Fin p)"]
    by (cases x) (auto simp add: convertToInt_def Let_def NumberIsNaN_def strict_eq_def
        plus_zero_def p)
qed

section \<open>Rounding in clamping mode\<close>

lemma evenRound_integer: "evenRound (Fin (of_int k)) = Fin (of_int k)"
  by (simp add: evenRound_def integerPart_def Let_def strict_eq_def plus_zero_def)

lemma finite_evenRound: "finite_number x \<Longrightarrow> finite_number (evenRound x)"
  by (cases x) (simp_all add: evenRound_def integerPart_def Let_def strict_eq_def plus_zero_def)

lemma evenRound_parts:
  "js_add (integerPart (Fin q)) (Fin 0) = Fin (of_int (rat_trunc q))"
  "MathAbs (js_rem (Fin q) (Fin 1)) = Fin \<bar>q - of_int (rat_trunc q)\<bar>"
  "strict_eq (js_rem (Fin (of_int t)) (Fin 2)) (Fin 0) = even t"
  "js_add (Fin (of_int t)) (MathSign (Fin (of_int t))) = Fin (of_int (t + sgn t))"
proof -
  show "js_add (integerPart (Fin q)) (Fin 0) = Fin (of_int (rat_trunc q))"
    by (simp add: integerPart_def)
  show "MathAbs (js_rem (Fin q) (Fin 1)) = Fin \<bar>q - of_int (rat_trunc q)\<bar>"
    by (simp add: Let_def)
  have "js_rem (Fin (of_int t)) (Fin (of_int 2))
          = (if trunc_rem t 2 = 0 then (if t < 0 then NegZero else Fin 0)
             else Fin (of_int (trunc_rem t 2)))"
    by (rule js_rem_int) simp
  then show "strict_eq (js_rem (Fin (of_int t)) (Fin 2)) (Fin 0) = even t"
    by (simp add: strict_eq_def plus_zero_def trunc_rem_two del: js_rem.simps)
  show "js_add (Fin (of_int t)) (MathSign (Fin (of_int t))) = Fin (of_int (t + sgn t))"
    by (simp add: sgn_if)
qed

lemma evenRound_Fin: "evenRound (Fin q) = Fin (of_int (evenRound_int q))"
proof -
  have "evenRound (Fin q) =
     (let i = Fin (of_int (rat_trunc q));
          reminder = Fin \<bar>q - of_int (rat_trunc q)\<bar>
      in if strict_eq reminder (Fin (1 / 2))
         then (if even (rat_trunc q) then i else Fin (of_int (rat_trunc q + sgn (rat_trunc q))))
         else (let r = (if js_lt reminder (Fin (1 / 2)) then i
                        else Fin (of_int (rat_trunc q + sgn (rat_trunc q))))
               in if strict_eq r (Fin 0) then Fin 0 else r))"
    by (simp only: evenRound_def evenRound_parts Let_def)
  then show ?thesis
    by (simp add: evenRound_int_def Let_def strict_eq_def plus_zero_def)
qed

lemma evenRound_int_eq:
  "evenRound_int q = (if 1 / 2 < \<bar>q\<bar> \<and> \<bar>q\<bar> < 1 then 0 else round_half_even q)"
proof -
  define f where "f = \<lfloor>q\<rfloor>"
  define d where "d = q - of_int f"
  have d: "0 \<le> d" "d < 1" and q: "q = of_int f + d"
    unfolding d_def f_def by linarith+
  have pos: "0 \<le> q \<longleftrightarrow> 0 \<le> f" by (simp add: f_def)
  have t: "rat_trunc q = (if 0 \<le> f then f else if d = 0 then f else f + 1)"
    using pos by (auto simp: rat_trunc_def ceiling_altdef f_def d_def)
  have r: "round_half_even q = (if d < 1 / 2 then f else if 1 / 2 < d then f + 1
                                else if even f then f else f + 1)"
    by (simp add: round_half_even_def Let_def f_def d_def)
  show ?thesis
  proof (cases "0 \<le> f")
    case True
    then have tf: "rat_trunc q = f" by (simp add: t)
    have fr: "\<bar>q - of_int f\<bar> = d" using d by (simp add: d_def)
    have absq: "\<bar>q\<bar> = of_int f + d" using True d q by simp
    show ?thesis
    proof (cases "f = 0")
      case True
      then show ?thesis using d by (auto simp: evenRound_int_def Let_def tf fr r absq)
    next
      case False
      then have "1 \<le> f" using \<open>0 \<le> f\<close> by simp
      then have "1 \<le> (of_int f :: rat)" by simp
      then show ?thesis using d \<open>1 \<le> f\<close>
        by (auto simp: evenRound_int_def Let_def tf fr r absq)
    qed
  next
    case False
    then have fneg: "f \<le> - 1" by simp
    then have fneg': "(of_int f :: rat) \<le> - 1" by (metis of_int_le_iff of_int_minus of_int_1)
    show ?thesis
    proof (cases "d = 0")
      case True
      then have tf: "rat_trunc q = f" using False by (simp add: t)
      have fr: "\<bar>q - of_int f\<bar> = 0" using True by (simp add: d_def)
      have absq: "\<bar>q\<bar> = - of_int f" using True q fneg' by simp
      show ?thesis using True fneg'
        by (auto simp: evenRound_int_def Let_def tf fr r absq)
    next
      case dn: False
      then have tf: "rat_trunc q = f + 1" using False by (simp add: t)
      have fr: "\<bar>q - (of_int f + 1)\<bar> = 1 - d" using d by (simp add: d_def)
      have absq: "\<bar>q\<bar> = - of_int f - d" using q fneg' d by simp
      show ?thesis
      proof (cases "f = - 1")
        case True
        then show ?thesis using d dn
          by (auto simp: evenRound_int_def Let_def tf fr r absq)
      next
        case False
        then have "f \<le> - 2" using fneg by simp
        then have "(of_int f :: rat) \<le> - 2" by (metis of_int_le_iff of_int_minus of_int_numeral)
        then show ?thesis using d dn \<open>f \<le> - 2\<close>
          by (auto simp: evenRound_int_def Let_def tf fr r absq)
      qed
    qed
  qed
qed

text \<open>
  \<open>evenRound\<close> rounds to the nearest integer with ties to even, and never returns
  \<open>-0\<close>, except for the inputs whose magnitude lies strictly between one half and one,
  which it sends to 0.
\<close>

lemma evenRound_extent:
  "evenRound (Fin q)
     = Fin (of_int (if 1 / 2 < \<bar>q\<bar> \<and> \<bar>q\<bar> < 1 then 0 else round_half_even q))"
  by (simp only: evenRound_Fin evenRound_int_eq)

lemma evenRound_int_bounds:
  assumes "of_int lo \<le> q" and "q \<le> of_int hi" and "lo \<le> 0" and "0 \<le> hi"
  shows "lo \<le> evenRound_int q" and "evenRound_int q \<le> hi"
proof -
  have lo: "lo \<le> \<lfloor>q\<rfloor>" using assms(1) by (simp add: le_floor_iff)
  have hi: "\<lfloor>q\<rfloor> \<le> hi" using assms(2) by (simp add: floor_le_iff)
  have step: "\<lfloor>q\<rfloor> + 1 \<le> hi" if "q \<noteq> of_int \<lfloor>q\<rfloor>"
  proof -
    have "q < of_int hi" using that assms(2) hi
      by (metis floor_of_int less_eq_rat_def)
    then have "\<lfloor>q\<rfloor> < hi" by (simp add: floor_less_iff)
    then show ?thesis by simp
  qed
  show "lo \<le> evenRound_int q"
    using lo assms(3) by (auto simp: evenRound_int_eq round_half_even_def Let_def)
  show "evenRound_int q \<le> hi"
    using hi assms(4) step by (auto simp: evenRound_int_eq round_half_even_def Let_def)
qed

lemma clamp_examples:
  "convertToInt ''x'' (Fin (5 / 2)) 8 (kEmptyObject\<lparr>opt_clamp := Some True\<rparr>) = Inr (Fin 2)"
  "convertToInt ''x'' (Fin (7 / 2)) 8 (kEmptyObject\<lparr>opt_clamp := Some True\<rparr>) = Inr (Fin 4)"
  by code_simp+

text \<open>
  Claim C3 at the input \<open>0.75\<close> with \<open>bitLength = 8\<close> and \<open>clamp\<close> set. The two examples
  of the claim hold (\<open>clamp_examples\<close>), and so does the claim for every clamped value of
  magnitude at most one half or at least one (\<open>evenRound_extent\<close>). But
  \<open>evenRound(0.75)\<close> is 0, and so is the result of \<open>convertToInt\<close>, where the nearest
  integer is 1: \<open>sign\<close> is taken from the truncated value \<open>i\<close>, which is zero for every
  \<open>x\<close> strictly between \<open>-1\<close> and 1.
\<close>

theorem evenRound_below_one:
  "evenRound (Fin (3 / 4)) = Fin 0
   \<and> convertToInt ''x'' (Fin (3 / 4)) 8 (kEmptyObject\<lparr>opt_clamp := Some True\<rparr>) = Inr (Fin 0)
   \<and> round_half_even (3 / 4) = 1"
  by code_simp

section \<open>Wrapping mode\<close>

text \<open>
  On a non-negative input the reduced value is the non-negative residue modulo
  \<open>2^bitLength\<close>, and the result is the two's-complement wrap-around of the
  specification.
\<close>

lemma modulo_nonneg_input:
  assumes "b \<in> {8, 16, 32, 64}" and "0 \<le> q"
  shows "modulo (integerPart (Fin q)) (pow2 b) = Fin (of_int (rat_trunc q mod 2 ^ nat b))"
proof -
  have "modulo (integerPart (Fin q)) (pow2 b) = Fin (of_int (trunc_rem (rat_trunc q) (2 ^ nat b)))"
    unfolding pow2_of_int(1) [OF assms(1)] by (rule modulo_int) simp
  then show ?thesis
    using rat_trunc_nonneg [OF assms(2)] by (simp add: trunc_rem_sign(2))
qed

lemma wrap_trunc_nonneg:
  assumes "0 \<le> t"
  shows "wrap_trunc s b t = wrap s b t"
  using assms by (simp add: wrap_trunc_def wrap_def trunc_rem_sign(2))

lemma convertToInt_wrap_nonneg:
  assumes "b \<in> {8, 16, 32, 64}" and "\<not> flag (opt_enforceRange opts)"
    and "\<not> flag (opt_clamp opts)" and "0 \<le> q"
  shows "convertToInt name (Fin q) b opts
           = Inr (Fin (of_int (wrap (flag (opt_signed opts)) b (rat_trunc q))))"
  using convertToInt_default [OF assms(1-3)] rat_trunc_nonneg [OF assms(4)]
  by (simp add: wrap_trunc_nonneg)

lemma integerPart_minus_one: "integerPart (Fin (- 1)) = Fin (- 1)"
  by code_simp

lemma modulo_minus_one: "modulo (Fin (- 1)) (Fin 256) = Fin (- 1)"
  by code_simp

text \<open>
  Claim C1 at the input \<open>-1\<close> with \<open>bitLength = 8\<close> and no option set. The value reduced by
  \<open>modulo\<close> is \<open>-1\<close>, which is below zero, and \<open>convertToInt\<close> returns it. A modulo with
  the sign of the modulus gives 255. On non-negative inputs the claim holds
  (\<open>modulo_nonneg_input\<close>).
\<close>

theorem modulo_negative_dividend:
  "modulo (integerPart (Fin (- 1))) (pow2 8) = Fin (- 1)
   \<and> js_lt (modulo (integerPart (Fin (- 1))) (pow2 8)) (Fin 0)
   \<and> convertToInt ''x'' (Fin (- 1)) 8 kEmptyObject = Inr (Fin (- 1))
   \<and> (- 1 :: int) mod 2 ^ 8 = 255"
proof -
  have m: "modulo (integerPart (Fin (- 1))) (pow2 8) = Fin (- 1)"
    by (simp add: integerPart_minus_one pow2_small modulo_minus_one)
  have c: "convertToInt ''x'' (Fin (- 1)) 8 kEmptyObject = Inr (Fin (- 1))"
    by (simp add: convertToInt_def kEmptyObject_def flag_def Let_def NumberIsNaN_def
        strict_eq_def plus_zero_def m)
  from m c show ?thesis by simp
qed

lemma wrap_examples:
  "convertToInt ''x'' (Fin 256) 8 kEmptyObject = Inr (Fin 0)"
  "convertToInt ''x'' (Fin (- 1)) 8 (kEmptyObject\<lparr>opt_signed := Some True\<rparr>) = Inr (Fin (- 1))"
  by code_simp+

text \<open>
  Claim C4 at negative inputs. The two examples of the claim hold (\<open>wrap_examples\<close>), and
  so does the claim on every non-negative input (\<open>convertToInt_wrap_nonneg\<close>). But a
  negative value is not reduced modulo \<open>2^bitLength\<close>: with \<open>bitLength = 8\<close>, signed, the
  input \<open>-200\<close> comes back as \<open>-200\<close> where two's-complement wrap-around gives 56, and
  unsigned the input \<open>-1\<close> comes back as \<open>-1\<close> where it gives 255.
\<close>

theorem wrap_negative_input:
  "convertToInt ''x'' (Fin (- 200)) 8 (kEmptyObject\<lparr>opt_signed := Some True\<rparr>) = Inr (Fin (- 200))
   \<and> wrap True 8 (- 200) = 56
   \<and> convertToInt ''x'' (Fin (- 1)) 8 kEmptyObject = Inr (Fin (- 1))
   \<and> wrap False 8 (- 1) = 255"
  by code_simp

section \<open>When the integer converter raises\<close>

text \<open>
  The bounds are integers or infinities, at every \<open>bitLength\<close>, and \<open>evenRound\<close> leaves
  such a Number as it is.
\<close>

lemma evenRound_fixed:
  assumes "integral_or_infinite x"
  shows "evenRound x = x"
proof (cases x)
  case (Fin r)
  with assms have "r = of_int \<lfloor>r\<rfloor>" by simp
  then show ?thesis using evenRound_integer [of "\<lfloor>r\<rfloor>"] Fin by simp
next
  case PosInf
  then show ?thesis
    by (simp add: evenRound_def integerPart_def Let_def strict_eq_def plus_zero_def)
next
  case NegInf
  then show ?thesis
    by (simp add: evenRound_def integerPart_def Let_def strict_eq_def plus_zero_def)
qed (use assms in simp_all)

lemma binary64_of_int_integral: "integral_or_infinite (binary64_of_int k)"
  by (simp add: binary64_of_int_def Let_def)

lemma binary64_integral_integral:
  assumes "integral_or_infinite x"
  shows "integral_or_infinite (binary64_integral x)"
  using assms by (cases x) (simp_all add: binary64_of_int_integral)

lemma shl32_one_nonzero: "shl32 1 e \<noteq> 0"
proof -
  have "nat (e mod 32) < 32" by simp
  then have "(2 :: 32 word) ^ nat (e mod 32) \<noteq> 0"
    by (simp only: exp_eq_zero_iff) simp
  then show ?thesis
    by (simp add: shl32_def signed_eq_0_iff push_bit_eq_mult)
qed

lemma pow2_cases: "(\<exists>k. k \<noteq> 0 \<and> pow2 e = Fin (of_int k)) \<or> pow2 e = PosInf"
proof -
  have "\<exists>k. k \<noteq> 0 \<and> Fin (2147483648 :: rat) = Fin (of_int k)"
    by (rule exI [of _ 2147483648]) simp
  moreover have "\<exists>k. k \<noteq> 0 \<and> Fin (4294967296 :: rat) = Fin (of_int k)"
    by (rule exI [of _ 4294967296]) simp
  moreover have "\<exists>k. k \<noteq> 0 \<and> Fin ((2 :: rat) ^ n) = Fin (of_int k)" for n
    by (rule exI [of _ "2 ^ n"]) simp
  ultimately show ?thesis
    using shl32_one_nonzero [of e]
    by (auto simp add: pow2_def pow2_with_def MathPow2_def)
qed

lemma bounds_integral:
  "integral_or_infinite (lowerBound s b)" "integral_or_infinite (upperBound s b)"
proof -
  have neg: "integral_or_infinite (js_neg (pow2 e))" for e
    using pow2_cases [of e] by auto
  have sub: "integral_or_infinite (js_sub (pow2 e) (Fin 1))" for e
    using pow2_cases [of e] by (auto simp add: js_sub_def)
  show "integral_or_infinite (lowerBound s b)"
    using neg by (simp add: lowerBound_def NumberMIN_SAFE_INTEGER_def)
  show "integral_or_infinite (upperBound s b)"
    using sub by (simp add: upperBound_def NumberMAX_SAFE_INTEGER_def binary64_integral_integral)
qed

lemma clamp_PosInf:
  assumes "integral_or_infinite lo" and "integral_or_infinite hi"
  shows "MathMin (MathMax PosInf lo) hi = hi"
  using assms by (cases lo; cases hi) (simp_all add: MathMin_def MathMax_def)

lemma clamp_NegInf:
  assumes "integral_or_infinite lo" and "integral_or_infinite hi"
  shows "MathMin (MathMax NegInf lo) hi = MathMin lo hi"
  using assms by (cases lo; cases hi) (simp_all add: MathMin_def MathMax_def)

lemma MathMin_integral:
  assumes "integral_or_infinite lo" and "integral_or_infinite hi"
  shows "integral_or_infinite (MathMin lo hi)"
  using assms by (cases lo; cases hi) (simp_all add: MathMin_def)

text \<open>The paths of the converter at every \<open>bitLength\<close>.\<close>

lemma convertToInt_enforceRange_any:
  assumes "flag (opt_enforceRange opts)"
  shows "convertToInt name x b opts =
           (if x = NaN \<or> x = PosInf \<or> x = NegInf
            then Inl (ERR_INVALID_ARG_VALUE name (Number x))
            else if js_lt (integerPart (plus_zero x)) (lowerBound (flag (opt_signed opts)) b)
                    \<or> js_gt (integerPart (plus_zero x)) (upperBound (flag (opt_signed opts)) b)
            then Inl (ERR_INVALID_ARG_VALUE name (Number (integerPart (plus_zero x))))
            else Inr (integerPart (plus_zero x)))"
  using assms
  by (cases x) (simp_all add: convertToInt_def Let_def NumberIsNaN_def strict_eq_def plus_zero_def)

lemma convertToInt_clamp_any:
  assumes "\<not> flag (opt_enforceRange opts)" and "flag (opt_clamp opts)" and "x \<noteq> NaN"
  shows "convertToInt name x b opts =
           Inr (evenRound (MathMin (MathMax (plus_zero x) (lowerBound (flag (opt_signed opts)) b))
                                   (upperBound (flag (opt_signed opts)) b)))"
  using assms
  by (cases x) (simp_all add: convertToInt_def Let_def NumberIsNaN_def strict_eq_def plus_zero_def)

lemma convertToInt_NaN:
  assumes "\<not> flag (opt_enforceRange opts)"
  shows "convertToInt name NaN b opts = Inr (Fin 0)"
  using assms by (simp add: convertToInt_def Let_def NumberIsNaN_def strict_eq_def plus_zero_def)

lemma convertToInt_infinite:
  assumes "\<not> flag (opt_enforceRange opts)" and "\<not> flag (opt_clamp opts)"
    and "x = PosInf \<or> x = NegInf"
  shows "convertToInt name x b opts = Inr (Fin 0)"
  using assms
  by (auto simp add: convertToInt_def Let_def NumberIsNaN_def strict_eq_def plus_zero_def)

lemma evenRound_not_NaN:
  assumes "x \<noteq> NaN"
  shows "evenRound x \<noteq> NaN"
proof (cases x)
  case (Fin q)
  then show ?thesis by (simp add: evenRound_Fin)
next
  case NegZero
  then show ?thesis
    by (simp add: evenRound_def integerPart_def Let_def strict_eq_def plus_zero_def)
qed (use assms in \<open>simp_all add: evenRound_fixed\<close>)

lemma clamp_not_NaN:
  assumes "x \<noteq> NaN" and "integral_or_infinite lo" and "integral_or_infinite hi"
  shows "MathMin (MathMax x lo) hi \<noteq> NaN"
proof -
  have "lo \<noteq> NaN" "hi \<noteq> NaN" using assms(2,3) by auto
  then show ?thesis using assms(1) by (simp add: MathMin_def MathMax_def)
qed

lemma wrap_not_NaN:
  assumes "\<not> flag (opt_enforceRange opts)" and "\<not> flag (opt_clamp opts) \<or> x = NaN"
  shows "\<exists>v. convertToInt name x b opts = Inr v \<and> v \<noteq> NaN"
proof (cases x)
  case (Fin q)
  have x1: "finite_number (integerPart (Fin q))" by (simp add: integerPart_def)
  have x2: "finite_number (modulo (integerPart (Fin q)) (pow2 b))"
  proof -
    from pow2_cases [of b] show ?thesis
    proof
      assume "\<exists>k. k \<noteq> 0 \<and> pow2 b = Fin (of_int k)"
      then show ?thesis using finite_modulo [OF x1] by auto
    next
      assume "pow2 b = PosInf"
      then show ?thesis
        by (simp add: modulo_def integerPart_def Let_def strict_eq_def plus_zero_def)
    qed
  qed
  have sub: "js_sub z (pow2 b) \<noteq> NaN" if "finite_number z" for z
    using that pow2_cases [of b] by (cases z) (auto simp add: js_sub_def)
  have "modulo (integerPart (Fin q)) (pow2 b) \<noteq> NaN" using x2 by auto
  with sub [OF x2] show ?thesis
    using assms Fin
    by (simp add: convertToInt_def Let_def NumberIsNaN_def strict_eq_def plus_zero_def)
qed (use assms in \<open>auto simp add: convertToInt_def Let_def NumberIsNaN_def strict_eq_def plus_zero_def\<close>)

lemma convertToInt_defined:
  assumes "\<not> flag (opt_enforceRange opts)"
  shows "\<exists>v. convertToInt name x b opts = Inr v \<and> v \<noteq> NaN"
proof (cases "flag (opt_clamp opts) \<and> x \<noteq> NaN")
  case True
  then have "plus_zero x \<noteq> NaN" by (auto simp add: plus_zero_def)
  from evenRound_not_NaN [OF clamp_not_NaN [OF this bounds_integral]]
  show ?thesis using True by (simp add: convertToInt_clamp_any [OF assms])
next
  case False
  then show ?thesis using wrap_not_NaN [OF assms] by blast
qed

lemma convertToInt_clamp_infinite:
  assumes "\<not> flag (opt_enforceRange opts)" and "flag (opt_clamp opts)"
  shows "convertToInt name PosInf b opts = Inr (upperBound (flag (opt_signed opts)) b)"
    and "convertToInt name NegInf b opts
           = Inr (MathMin (lowerBound (flag (opt_signed opts)) b) (upperBound (flag (opt_signed opts)) b))"
proof -
  note bi = bounds_integral [of "flag (opt_signed opts)" b]
  show "convertToInt name PosInf b opts = Inr (upperBound (flag (opt_signed opts)) b)"
    using convertToInt_clamp_any [OF assms, of PosInf name b]
    by (simp add: plus_zero_def clamp_PosInf [OF bi] evenRound_fixed [OF bi(2)])
  show "convertToInt name NegInf b opts
           = Inr (MathMin (lowerBound (flag (opt_signed opts)) b) (upperBound (flag (opt_signed opts)) b))"
    using convertToInt_clamp_any [OF assms, of NegInf name b]
    by (simp add: plus_zero_def clamp_NegInf [OF bi] evenRound_fixed [OF MathMin_integral [OF bi]])
qed

lemma convertToInt_error_kind:
  assumes "convertToInt name x b opts = Inl e"
  shows "flag (opt_enforceRange opts)" and "error_code e = Some ''ERR_INVALID_ARG_VALUE''"
proof -
  show on: "flag (opt_enforceRange opts)"
    using assms convertToInt_defined [of opts name x b] by (cases "flag (opt_enforceRange opts)") auto
  show "error_code e = Some ''ERR_INVALID_ARG_VALUE''"
    using assms by (auto simp add: convertToInt_enforceRange_any [OF on] split: if_splits)
qed

text \<open>
  From \<open>bitLength = 1\<close> on the lower bound is the smaller of the two bounds: the
  exponents passed to \<open>pow2\<close> are not negative, where the 32-bit shift gives a positive
  power of two.
\<close>

lemma shl32_one_positive:
  assumes "0 \<le> e" and "e < 31"
  shows "1 \<le> shl32 1 e"
proof -
  from assms have "e \<in> {0, 1, 2, 3, 4, 5, 6, 7, 8, 9, 10, 11, 12, 13, 14, 15, 16, 17, 18, 19, 20,
                         21, 22, 23, 24, 25, 26, 27, 28, 29, 30}"
    by simp presburger
  then show ?thesis
    by (auto simp add: shl32_def)
qed

lemma pow2_positive:
  assumes "0 \<le> e"
  shows "(\<exists>k. 1 \<le> k \<and> pow2 e = Fin (of_int k)) \<or> pow2 e = PosInf"
proof -
  have "\<exists>k. 1 \<le> k \<and> Fin (2147483648 :: rat) = Fin (of_int k)"
    by (rule exI [of _ 2147483648]) simp
  moreover have "\<exists>k. 1 \<le> k \<and> Fin (4294967296 :: rat) = Fin (of_int k)"
    by (rule exI [of _ 4294967296]) simp
  moreover have "\<exists>k. 1 \<le> k \<and> Fin ((2 :: rat) ^ n) = Fin (of_int k)" for n
    by (rule exI [of _ "2 ^ n"]) simp
  moreover have "e < 31 \<Longrightarrow> \<exists>k. 1 \<le> k \<and> Fin (of_int (shl32 1 e) :: rat) = Fin (of_int k)"
    using shl32_one_positive [OF assms] by blast
  ultimately show ?thesis
    using assms by (auto simp add: pow2_def pow2_with_def MathPow2_def)
qed

lemma binary64_of_int_nonneg:
  assumes "0 \<le> k"
  shows "(\<exists>r. 0 \<le> r \<and> binary64_of_int k = Fin r) \<or> binary64_of_int k = PosInf"
  using assms
  by (auto simp add: binary64_of_int_def Let_def sgn_if pos_imp_zdiv_nonneg_iff
      intro!: mult_nonneg_nonneg add_nonneg_nonneg)

lemma upper_nonneg:
  assumes "0 \<le> e"
  shows "(\<exists>r. 0 \<le> r \<and> binary64_integral (js_sub (pow2 e) (Fin 1)) = Fin r)
         \<or> binary64_integral (js_sub (pow2 e) (Fin 1)) = PosInf"
proof -
  from pow2_positive [OF assms] show ?thesis
  proof
    assume "\<exists>k. 1 \<le> k \<and> pow2 e = Fin (of_int k)"
    then obtain k where k: "1 \<le> k" "pow2 e = Fin (of_int k)" by blast
    have "js_sub (pow2 e) (Fin 1) = Fin (of_int (k - 1))"
      by (simp add: k js_sub_def)
    then have "binary64_integral (js_sub (pow2 e) (Fin 1)) = binary64_of_int (k - 1)"
      by simp
    then show ?thesis using binary64_of_int_nonneg [of "k - 1"] k(1) by simp
  next
    assume "pow2 e = PosInf"
    then show ?thesis by (simp add: js_sub_def)
  qed
qed

lemma bounds_order:
  assumes "1 \<le> b"
  shows "MathMin (lowerBound s b) (upperBound s b) = lowerBound s b"
proof (cases "b = 64")
  case True
  then show ?thesis
    by (simp add: lowerBound_def upperBound_def MathMin_def NumberMIN_SAFE_INTEGER_def
        NumberMAX_SAFE_INTEGER_def)
next
  case False
  show ?thesis
  proof (cases s)
    case False
    have "0 \<le> b" using assms by simp
    from upper_nonneg [OF this] \<open>b \<noteq> 64\<close> False show ?thesis
      by (auto simp add: lowerBound_def upperBound_def MathMin_def)
  next
    case True
    have e: "0 \<le> b - 1" using assms by simp
    from pow2_positive [OF e] have "js_neg (pow2 (b - 1)) = NegInf
        \<or> (\<exists>r. r < 0 \<and> js_neg (pow2 (b - 1)) = Fin r)"
      by auto
    with upper_nonneg [OF e] \<open>b \<noteq> 64\<close> True show ?thesis
      by (auto simp add: lowerBound_def upperBound_def MathMin_def)
  qed
qed

lemma convertToInt_finite:
  assumes "b \<in> {8, 16, 32, 64}" and "\<not> flag (opt_enforceRange opts)"
  shows "\<exists>v. convertToInt name x b opts = Inr v \<and> finite_number v"
proof (cases "flag (opt_clamp opts) \<and> x \<noteq> NaN")
  case True
  note ord = range_order [OF assms(1), of "flag (opt_signed opts)"]
  from True show ?thesis
    using convertToInt_clamp [OF assms, of x name]
      finite_evenRound [OF clamp_finite [OF _ ord, of "plus_zero x"]]
    by (simp add: plus_zero_def)
next
  case False
  then show ?thesis
    using convertToInt_default_finite [OF assms, of x name] by blast
qed

text \<open>
  Claim C2, as the code has it, for every host, value, integer \<open>bitLength\<close> and options.
  When the coercion \<open>+value\<close> raises, \<open>convertToInt\<close> raises that error, whatever the
  options; it does so with the language's \<open>TypeError\<close> for a Symbol and for a BigInt.
  When the coercion gives the Number \<open>x\<close>: \<open>convertToInt\<close> raises exactly when
  \<open>enforceRange\<close> is set and \<open>x\<close> is NaN or infinite or its truncation lies outside
  \<open>[lowerBound, upperBound]\<close>; every error it raises has kind \<open>ERR_INVALID_ARG_VALUE\<close>;
  with \<open>enforceRange\<close> set and \<open>x\<close> finite and in range it returns the truncation of
  \<open>x\<close>, whatever \<open>clamp\<close> is. With \<open>enforceRange\<close> unset it returns a Number other than
  NaN: 0 for NaN; 0 for an infinity when \<open>clamp\<close> is unset; and, when \<open>clamp\<close> is set,
  \<open>upperBound\<close> for \<open>+Infinity\<close> and the smaller of the two bounds for \<open>-Infinity\<close>.
  The smaller bound is \<open>lowerBound\<close> whenever \<open>bitLength\<close> is at least 1. For
  \<open>bitLength\<close> in 8, 16, 32, 64 the bounds are those of the specification, and the Number
  returned with \<open>enforceRange\<close> unset is finite.
\<close>

theorem convertToInt_raises:
  fixes h :: host and name :: string and V :: jsval and b :: int and opts :: options
  defines "cv \<equiv> convertToInt_value h name V b opts"
    and "lower \<equiv> lowerBound (flag (opt_signed opts)) b"
    and "upper \<equiv> upperBound (flag (opt_signed opts)) b"
  shows "(\<forall>e. ToNumber h V = Inl e \<longrightarrow> cv = Inl e)
         \<and> ((\<exists>d. V = Symbol d) \<or> (\<exists>i. V = BigInt i) \<longrightarrow> cv = Inl Host_TypeError)
         \<and> (\<forall>x. ToNumber h V = Inr x \<longrightarrow>
               ((\<exists>e. cv = Inl e) \<longleftrightarrow>
                  flag (opt_enforceRange opts)
                  \<and> (x = NaN \<or> x = PosInf \<or> x = NegInf
                       \<or> js_lt (integerPart (plus_zero x)) lower
                       \<or> js_gt (integerPart (plus_zero x)) upper))
               \<and> (\<forall>e. cv = Inl e \<longrightarrow> error_code e = Some ''ERR_INVALID_ARG_VALUE'')
               \<and> (flag (opt_enforceRange opts) \<and> finite_number x
                    \<and> \<not> js_lt (integerPart (plus_zero x)) lower
                    \<and> \<not> js_gt (integerPart (plus_zero x)) upper \<longrightarrow>
                      cv = Inr (integerPart (plus_zero x)))
               \<and> (\<not> flag (opt_enforceRange opts) \<longrightarrow> (\<exists>v. cv = Inr v \<and> v \<noteq> NaN))
               \<and> (\<not> flag (opt_enforceRange opts) \<and> x = NaN \<longrightarrow> cv = Inr (Fin 0))
               \<and> (\<not> flag (opt_enforceRange opts) \<and> \<not> flag (opt_clamp opts)
                    \<and> (x = PosInf \<or> x = NegInf) \<longrightarrow> cv = Inr (Fin 0))
               \<and> (\<not> flag (opt_enforceRange opts) \<and> flag (opt_clamp opts) \<and> x = PosInf \<longrightarrow>
                      cv = Inr upper)
               \<and> (\<not> flag (opt_enforceRange opts) \<and> flag (opt_clamp opts) \<and> x = NegInf \<longrightarrow>
                      cv = Inr (MathMin lower upper)))
         \<and> (1 \<le> b \<longrightarrow> MathMin lower upper = lower)
         \<and> (b \<in> {8, 16, 32, 64} \<longrightarrow>
               lower = Fin (of_int (range_low (flag (opt_signed opts)) b))
               \<and> upper = Fin (of_int (range_high (flag (opt_signed opts)) b))
               \<and> (\<forall>x. ToNumber h V = Inr x \<and> \<not> flag (opt_enforceRange opts) \<longrightarrow>
                     (\<exists>v. cv = Inr v \<and> finite_number v)))"
proof -
  have failed: "\<forall>e. ToNumber h V = Inl e \<longrightarrow> cv = Inl e"
    by (simp add: cv_def convertToInt_value_def)
  have symbol: "(\<exists>d. V = Symbol d) \<or> (\<exists>i. V = BigInt i) \<longrightarrow> cv = Inl Host_TypeError"
    by (auto simp add: cv_def convertToInt_value_def)
  have coerced: "cv = convertToInt name x b opts" if "ToNumber h V = Inr x" for x
    using that by (simp add: cv_def convertToInt_value_def)
  have number: "((\<exists>e. cv = Inl e) \<longleftrightarrow>
                  flag (opt_enforceRange opts)
                  \<and> (x = NaN \<or> x = PosInf \<or> x = NegInf
                       \<or> js_lt (integerPart (plus_zero x)) lower
                       \<or> js_gt (integerPart (plus_zero x)) upper))
               \<and> (\<forall>e. cv = Inl e \<longrightarrow> error_code e = Some ''ERR_INVALID_ARG_VALUE'')
               \<and> (flag (opt_enforceRange opts) \<and> finite_number x
                    \<and> \<not> js_lt (integerPart (plus_zero x)) lower
                    \<and> \<not> js_gt (integerPart (plus_zero x)) upper \<longrightarrow>
                      cv = Inr (integerPart (plus_zero x)))
               \<and> (\<not> flag (opt_enforceRange opts) \<longrightarrow> (\<exists>v. cv = Inr v \<and> v \<noteq> NaN))
               \<and> (\<not> flag (opt_enforceRange opts) \<and> x = NaN \<longrightarrow> cv = Inr (Fin 0))
               \<and> (\<not> flag (opt_enforceRange opts) \<and> \<not> flag (opt_clamp opts)
                    \<and> (x = PosInf \<or> x = NegInf) \<longrightarrow> cv = Inr (Fin 0))
               \<and> (\<not> flag (opt_enforceRange opts) \<and> flag (opt_clamp opts) \<and> x = PosInf \<longrightarrow>
                      cv = Inr upper)
               \<and> (\<not> flag (opt_enforceRange opts) \<and> flag (opt_clamp opts) \<and> x = NegInf \<longrightarrow>
                      cv = Inr (MathMin lower upper))"
    if x: "ToNumber h V = Inr x" for x
  proof -
    note c = coerced [OF x]
    have raises: "(\<exists>e. cv = Inl e) \<longleftrightarrow>
                  flag (opt_enforceRange opts)
                  \<and> (x = NaN \<or> x = PosInf \<or> x = NegInf
                       \<or> js_lt (integerPart (plus_zero x)) lower
                       \<or> js_gt (integerPart (plus_zero x)) upper)"
    proof (cases "flag (opt_enforceRange opts)")
      case True
      then show ?thesis
        by (simp add: c convertToInt_enforceRange_any [OF True] lower_def upper_def)
    next
      case False
      then show ?thesis using convertToInt_defined [OF False, of name x b] by (auto simp add: c)
    qed
    have kind: "\<forall>e. cv = Inl e \<longrightarrow> error_code e = Some ''ERR_INVALID_ARG_VALUE''"
      using convertToInt_error_kind(2) [of name x b opts] by (simp add: c)
    have accepted: "flag (opt_enforceRange opts) \<and> finite_number x
                    \<and> \<not> js_lt (integerPart (plus_zero x)) lower
                    \<and> \<not> js_gt (integerPart (plus_zero x)) upper \<longrightarrow>
                      cv = Inr (integerPart (plus_zero x))"
      by (auto simp add: c convertToInt_enforceRange_any lower_def upper_def)
    have returns: "\<not> flag (opt_enforceRange opts) \<longrightarrow> (\<exists>v. cv = Inr v \<and> v \<noteq> NaN)"
      using convertToInt_defined [of opts name x b] by (simp add: c)
    have nan: "\<not> flag (opt_enforceRange opts) \<and> x = NaN \<longrightarrow> cv = Inr (Fin 0)"
      by (auto simp add: c convertToInt_NaN)
    have inf: "\<not> flag (opt_enforceRange opts) \<and> \<not> flag (opt_clamp opts)
                    \<and> (x = PosInf \<or> x = NegInf) \<longrightarrow> cv = Inr (Fin 0)"
      using convertToInt_infinite [of opts x name b] by (auto simp add: c)
    have hi: "\<not> flag (opt_enforceRange opts) \<and> flag (opt_clamp opts) \<and> x = PosInf \<longrightarrow>
                      cv = Inr upper"
      by (auto simp add: c convertToInt_clamp_infinite(1) upper_def)
    have lo: "\<not> flag (opt_enforceRange opts) \<and> flag (opt_clamp opts) \<and> x = NegInf \<longrightarrow>
                      cv = Inr (MathMin lower upper)"
      by (auto simp add: c convertToInt_clamp_infinite(2) lower_def upper_def)
    from raises kind accepted returns nan inf hi lo show ?thesis by blast
  qed
  have order: "MathMin lower upper = lower" if "1 \<le> b"
    unfolding lower_def upper_def by (rule bounds_order [OF that])
  have standard: "lower = Fin (of_int (range_low (flag (opt_signed opts)) b))
               \<and> upper = Fin (of_int (range_high (flag (opt_signed opts)) b))
               \<and> (\<forall>x. ToNumber h V = Inr x \<and> \<not> flag (opt_enforceRange opts) \<longrightarrow>
                     (\<exists>v. cv = Inr v \<and> finite_number v))"
    if b: "b \<in> {8, 16, 32, 64}"
  proof -
    have fin: "\<exists>v. cv = Inr v \<and> finite_number v"
      if "ToNumber h V = Inr x" and "\<not> flag (opt_enforceRange opts)" for x
      using convertToInt_finite [OF b that(2), of name x] by (simp add: coerced [OF that(1)])
    have l: "lower = Fin (of_int (range_low (flag (opt_signed opts)) b))"
      and u: "upper = Fin (of_int (range_high (flag (opt_signed opts)) b))"
      by (simp_all only: lower_def upper_def bounds_range [OF b])
    from fin l u show ?thesis by blast
  qed
  from failed symbol number order standard show ?thesis by blast
qed

theorem convertToInt_raises_witness:
  "ToNumber example_host (Number (Fin (5 / 2))) = Inr (Fin (5 / 2))
   \<and> flag (opt_enforceRange (kEmptyObject\<lparr>opt_enforceRange := Some True, opt_clamp := Some True\<rparr>))
   \<and> finite_number (Fin (5 / 2))
   \<and> \<not> js_lt (integerPart (plus_zero (Fin (5 / 2)))) (lowerBound False 8)
   \<and> \<not> js_gt (integerPart (plus_zero (Fin (5 / 2)))) (upperBound False 8)
   \<and> convertToInt_value example_host ''x'' (Number (Fin (5 / 2))) 8
         (kEmptyObject\<lparr>opt_enforceRange := Some True, opt_clamp := Some True\<rparr>) = Inr (Fin 2)
   \<and> convertToInt_value example_host ''x'' (Symbol ''s'') 8 kEmptyObject = Inl Host_TypeError
   \<and> ToNumber example_host (Number NegInf) = Inr NegInf
   \<and> \<not> flag (opt_enforceRange (kEmptyObject\<lparr>opt_signed := Some True, opt_clamp := Some True\<rparr>))
   \<and> flag (opt_clamp (kEmptyObject\<lparr>opt_signed := Some True, opt_clamp := Some True\<rparr>))
   \<and> (1::int) \<le> 8 \<and> (8::int) \<in> {8, 16, 32, 64}
   \<and> convertToInt_value example_host ''x'' (Number NegInf) 8
         (kEmptyObject\<lparr>opt_signed := Some True, opt_clamp := Some True\<rparr>) = Inr (Fin (- 128))"
proof -
  let ?e = "kEmptyObject\<lparr>opt_enforceRange := Some True, opt_clamp := Some True\<rparr>"
  let ?c = "kEmptyObject\<lparr>opt_signed := Some True, opt_clamp := Some True\<rparr>"
  have b: "(1::int) \<le> 8" "(8::int) \<in> {8, 16, 32, 64}" by simp_all
  have n: "ToNumber example_host (Number (Fin (5 / 2))) = Inr (Fin (5 / 2))"
    "ToNumber example_host (Number NegInf) = Inr NegInf"
    by simp_all
  have fe: "flag (opt_enforceRange ?e)" "flag (opt_signed ?e) = False"
    by (simp_all add: flag_def kEmptyObject_def)
  have fc: "\<not> flag (opt_enforceRange ?c)" "flag (opt_clamp ?c)" "flag (opt_signed ?c) = True"
    by (simp_all add: flag_def kEmptyObject_def)
  have r: "finite_number (Fin (5 / 2))"
    "\<not> js_lt (integerPart (plus_zero (Fin (5 / 2)))) (lowerBound False 8)"
    "\<not> js_gt (integerPart (plus_zero (Fin (5 / 2)))) (upperBound False 8)"
    by code_simp+
  have v: "integerPart (plus_zero (Fin (5 / 2))) = Fin 2" "range_low True 8 = - 128"
    by code_simp+
  note t1 = convertToInt_raises [where h = example_host and name = "''x''"
      and V = "Number (Fin (5 / 2))" and b = 8 and opts = ?e]
  note t2 = convertToInt_raises [where h = example_host and name = "''x''"
      and V = "Symbol ''s''" and b = 8 and opts = kEmptyObject]
  note t3 = convertToInt_raises [where h = example_host and name = "''x''"
      and V = "Number NegInf" and b = 8 and opts = ?c]
  have r': "\<not> js_lt (integerPart (plus_zero (Fin (5 / 2)))) (lowerBound (flag (opt_signed ?e)) 8)"
    "\<not> js_gt (integerPart (plus_zero (Fin (5 / 2)))) (upperBound (flag (opt_signed ?e)) 8)"
    by code_simp+
  note t1_number = t1 [THEN conjunct2, THEN conjunct2, THEN conjunct1, rule_format, OF n(1)]
  note t1_accepted = t1_number [THEN conjunct2, THEN conjunct2, THEN conjunct1]
  from t1_accepted fe(1) r(1) r'
  have "convertToInt_value example_host ''x'' (Number (Fin (5 / 2))) 8 ?e
          = Inr (integerPart (plus_zero (Fin (5 / 2))))"
    by blast
  then have 1: "convertToInt_value example_host ''x'' (Number (Fin (5 / 2))) 8 ?e = Inr (Fin 2)"
    by (simp only: v(1))
  from t2 [THEN conjunct2, THEN conjunct1]
  have 2: "convertToInt_value example_host ''x'' (Symbol ''s'') 8 kEmptyObject
             = Inl Host_TypeError"
    by simp
  note t3_number = t3 [THEN conjunct2, THEN conjunct2, THEN conjunct1, rule_format, OF n(2)]
  note t3_lower = t3_number [THEN conjunct2, THEN conjunct2, THEN conjunct2, THEN conjunct2,
      THEN conjunct2, THEN conjunct2, THEN conjunct2]
  note t3_order = t3 [THEN conjunct2, THEN conjunct2, THEN conjunct2, THEN conjunct1,
      rule_format, OF b(1)]
  note t3_standard = t3 [THEN conjunct2, THEN conjunct2, THEN conjunct2, THEN conjunct2,
      rule_format, OF b(2)]
  from t3_lower fc(1,2)
  have "convertToInt_value example_host ''x'' (Number NegInf) 8 ?c
          = Inr (MathMin (lowerBound (flag (opt_signed ?c)) 8) (upperBound (flag (opt_signed ?c)) 8))"
    by blast
  also note t3_order
  also from t3_standard
  have "lowerBound (flag (opt_signed ?c)) 8 = Fin (of_int (range_low (flag (opt_signed ?c)) 8))"
    by (rule conjunct1)
  also have "\<dots> = Fin (- 128)"
    by (simp only: fc(3) v(2)) simp
  finally have 3: "convertToInt_value example_host ''x'' (Number NegInf) 8 ?c = Inr (Fin (- 128))" .
  from n fe(1) r 1 2 fc(1,2) b 3 show ?thesis by (intro conjI)
qed

text \<open>
  Claim C2 as stated fails twice with \<open>enforceRange\<close> unset. With \<open>clamp\<close> set,
  \<open>+Infinity\<close> is converted to 255 at \<open>bitLength = 8\<close>, not to 0. And on a Symbol the
  conversion raises: the coercion \<open>+value\<close> throws the language's \<open>TypeError\<close>.
\<close>

theorem convertToInt_raises_counterexample:
  "flag (opt_enforceRange (kEmptyObject\<lparr>opt_clamp := Some True\<rparr>)) = False
   \<and> convertToInt_value example_host ''x'' (Number PosInf) 8 (kEmptyObject\<lparr>opt_clamp := Some True\<rparr>)
       = Inr (Fin 255)
   \<and> Fin 255 \<noteq> Fin 0
   \<and> flag (opt_enforceRange kEmptyObject) = False
   \<and> convertToInt_value example_host ''x'' (Symbol ''s'') 8 kEmptyObject = Inl Host_TypeError"
  by code_simp


section \<open>Applying the integer converter twice\<close>

text \<open>
  A second application to the result of a first returns the same Number up to the sign
  of a zero: a result \<open>-0\<close> comes back as \<open>+0\<close>, every other result comes back as it
  is.
\<close>

lemma wrap_step_fixed:
  assumes "P = 2 * H" and "0 < H" and "\<bar>m\<bar> < P"
  shows "(let m' = trunc_rem (if s \<and> H \<le> m then m - P else m) P
          in if s \<and> H \<le> m' then m' - P else m')
           = (if s \<and> H \<le> m then m - P else m)"
proof (cases "s \<and> H \<le> m")
  case True
  have "\<bar>m - P\<bar> < P" using True assms by linarith
  then have "trunc_rem (m - P) P = m - P" by (rule trunc_rem_small)
  moreover have "\<not> H \<le> m - P" using assms by linarith
  ultimately show ?thesis using True by (simp add: Let_def)
next
  case False
  have "trunc_rem m P = m" using assms(3) by (rule trunc_rem_small)
  then show ?thesis using False by (auto simp add: Let_def)
qed

lemma wrap_trunc_idem:
  assumes "b \<in> {8, 16, 32, 64}"
  shows "wrap_trunc s b (wrap_trunc s b t) = wrap_trunc s b t"
proof -
  have PH: "(2 ^ nat b :: int) = 2 * 2 ^ nat (b - 1)" "(0 :: int) < 2 ^ nat (b - 1)"
    using assms by auto
  have m: "\<bar>trunc_rem t (2 ^ nat b)\<bar> < 2 ^ nat b"
    by (rule trunc_rem_sign(1)) simp
  from wrap_step_fixed [OF PH m, of s] show ?thesis
    by (simp only: wrap_trunc_def Let_def)
qed

lemma convertToInt_twice:
  assumes b: "b \<in> {8, 16, 32, 64}" and first: "convertToInt name x b opts = Inr r"
  shows "convertToInt name r b opts = Inr (plus_zero r)"
proof -
  let ?s = "flag (opt_signed opts)"
  let ?lo = "range_low ?s b" and ?hi = "range_high ?s b"
  note ord = range_order [OF b, of ?s]
  have integral: "convertToInt name (Fin (of_int k)) b opts = Inr (Fin (of_int k))"
    if off: "\<not> flag (opt_enforceRange opts)" and on: "flag (opt_clamp opts)"
      and k: "?lo \<le> k" "k \<le> ?hi" for k
    using convertToInt_clamp [OF b off on, of "Fin (of_int k)" name] clamp_inside [OF k]
    by (simp add: plus_zero_def evenRound_integer)
  show ?thesis
  proof (cases "flag (opt_enforceRange opts)")
    case True
    note eq = convertToInt_enforceRange [OF b True]
    from first have fin: "finite_number x" and lo: "?lo \<le> truncated x"
      and hi: "truncated x \<le> ?hi" and r: "r = integerPart (plus_zero x)"
      by (auto simp: eq split: if_splits)
    have "finite_number r \<and> truncated r = truncated x \<and> integerPart (plus_zero r) = plus_zero r"
      using fin by (cases x) (auto simp: r plus_zero_def integerPart_def truncated_def)
    then show ?thesis using lo hi by (simp add: eq)
  next
    case off: False
    show ?thesis
    proof (cases "flag (opt_clamp opts)")
      case on: True
      have "\<exists>k. r = Fin (of_int k) \<and> ?lo \<le> k \<and> k \<le> ?hi"
      proof (cases "x = NaN")
        case True
        then have "r = Fin (of_int 0)" using first off
          by (simp add: convertToInt_def Let_def NumberIsNaN_def strict_eq_def plus_zero_def)
        then show ?thesis using ord by (intro exI [of _ 0]) simp
      next
        case False
        obtain c where c: "MathMin (MathMax (plus_zero x) (Fin (of_int ?lo))) (Fin (of_int ?hi)) = Fin c"
          "of_int ?lo \<le> c" "c \<le> of_int ?hi"
          using clamp_value [OF False ord] by blast
        have "r = Fin (of_int (evenRound_int c))"
          using first convertToInt_clamp [OF b off on False, of name] by (simp add: c(1) evenRound_Fin)
        moreover have "?lo \<le> evenRound_int c" "evenRound_int c \<le> ?hi"
          using evenRound_int_bounds [OF c(2,3)] ord by simp_all
        ultimately show ?thesis by blast
      qed
      then obtain k where "r = Fin (of_int k)" "?lo \<le> k" "k \<le> ?hi" by blast
      then show ?thesis using integral [OF off on] by (simp add: plus_zero_def)
    next
      case noclamp: False
      note eq = convertToInt_default [OF b off noclamp]
      have "\<exists>t. r = Fin (of_int (wrap_trunc ?s b t))"
      proof (cases x)
        case (Fin q)
        then show ?thesis using first by (auto simp: eq)
      next
        case NegZero
        then have "r = Fin 0" using first off noclamp
          by (simp add: convertToInt_def Let_def NumberIsNaN_def strict_eq_def plus_zero_def)
        then show ?thesis by (intro exI [of _ 0]) (simp add: wrap_trunc_def trunc_rem_def)
      next
        case NaN
        then have "r = Fin 0" using first off noclamp
          by (simp add: convertToInt_def Let_def NumberIsNaN_def strict_eq_def plus_zero_def)
        then show ?thesis by (intro exI [of _ 0]) (simp add: wrap_trunc_def trunc_rem_def)
      next
        case PosInf
        then have "r = Fin 0" using first off noclamp
          by (simp add: convertToInt_def Let_def NumberIsNaN_def strict_eq_def plus_zero_def)
        then show ?thesis by (intro exI [of _ 0]) (simp add: wrap_trunc_def trunc_rem_def)
      next
        case NegInf
        then have "r = Fin 0" using first off noclamp
          by (simp add: convertToInt_def Let_def NumberIsNaN_def strict_eq_def plus_zero_def)
        then show ?thesis by (intro exI [of _ 0]) (simp add: wrap_trunc_def trunc_rem_def)
      qed
      then obtain t where "r = Fin (of_int (wrap_trunc ?s b t))" by blast
      then show ?thesis
        by (simp add: eq wrap_trunc_idem [OF b] plus_zero_def)
    qed
  qed
qed

text \<open>
  Claim C5 at the input \<open>-0.5\<close> with \<open>bitLength = 8\<close> and \<open>enforceRange\<close> set. The first
  call returns \<open>-0\<close> (the truncation of \<open>-0.5\<close>, which is not below the lower bound 0);
  the second call, on \<open>-0\<close>, returns \<open>+0\<close>. Every result other than \<open>-0\<close> is a fixed
  point (\<open>convertToInt_twice\<close>).
\<close>

theorem enforceRange_negative_zero:
  "convertToInt ''x'' (Fin (- 1 / 2)) 8 (kEmptyObject\<lparr>opt_enforceRange := Some True\<rparr>) = Inr NegZero
   \<and> convertToInt ''x'' NegZero 8 (kEmptyObject\<lparr>opt_enforceRange := Some True\<rparr>) = Inr (Fin 0)
   \<and> NegZero \<noteq> Fin 0"
  by code_simp

section \<open>The string converter\<close>

text \<open>
  Claim C9, as the code has it. For every symbol the DOMString converter raises, and the
  error is the one built by \<open>ERR_INVALID_ARG_VALUE("value", V)\<close>: its kind code is
  \<open>ERR_INVALID_ARG_VALUE\<close>, for every host.
\<close>

theorem DOMString_symbol:
  "\<exists>e. DOMString h (Symbol d) = Inl e \<and> error_code e = Some ''ERR_INVALID_ARG_VALUE''"
  by simp

text \<open>
  Claim C9 as stated fails: the kind code of the error raised for the symbol
  \<open>Symbol("s")\<close> is not \<open>ERR_INVALID_ARG_TYPE\<close>.
\<close>

theorem DOMString_symbol_counterexample:
  "DOMString example_host (Symbol ''s'') = Inl (ERR_INVALID_ARG_VALUE ''value'' (Symbol ''s''))
   \<and> error_code (ERR_INVALID_ARG_VALUE ''value'' (Symbol ''s'')) \<noteq> Some ''ERR_INVALID_ARG_TYPE''"
  by simp

section \<open>Exceptions and the enum converter\<close>



lemma enum_message_example:
  "createEnumConverter example_host ''E'' [''a'', ''b''] (String ''c'') kEmptyObject
     = Inl (Coded_TypeError ''Value value 'c' is not a valid enum value of type E.''
                            ''ERR_INVALID_ARG_VALUE'')"
  by (simp add: createEnumConverter_def example_host_def makeException_def codedTypeError_def
      kEmptyObject_def Let_def)



section \<open>The sequence converter\<close>

lemma sequence_loop_elements:
  assumes "\<forall>k<n. yields (iter k)" and "completes (iter n)" and "n < fuel"
  shows "sequence_loop fuel converter opts iter array
           = Some (convert_all converter
                     (map (\<lambda>i. (yielded (iter i), element_opts opts (length array + i))) [0..<n])
                     array)"
  using assms
proof (induction n arbitrary: fuel iter array)
  case 0
  then obtain f where f: "fuel = Suc f" by (cases fuel) auto
  from 0 show ?case
    by (cases "iter 0") (simp_all add: f)
next
  case (Suc n)
  then obtain f where f: "fuel = Suc f" and nf: "n < f" by (cases fuel) auto
  from Suc.prems have y0: "yields (iter 0)" by simp
  then obtain d v where r0: "iter 0 = Res_object d v" and nd: "property d \<noteq> Boolean True"
    by (cases "iter 0") auto
  let ?iter = "\<lambda>k. iter (Suc k)"
  have rest: "\<forall>k<n. yields (?iter k)" "completes (?iter n)"
    using Suc.prems by auto
  show ?case
  proof (cases "converter (property v) (element_opts opts (length array))")
    case (Inl e)
    then show ?thesis
      by (simp add: f r0 nd map_upt_Suc del: upt_Suc)
  next
    case (Inr y)
    from Suc.IH [OF rest nf, of "array @ [y]"] Inr show ?thesis
      by (simp add: f r0 nd map_upt_Suc del: upt_Suc)
  qed
qed

lemma element_opts_absent:
  "opt_context opts = None \<Longrightarrow>
     element_opts opts i = opts\<lparr>opt_context := Some (''undefined['' @ decimal i @ '']'')\<rparr>"
  by (simp add: element_opts_def template_context_def)

text \<open>
  Claim C10. When the caller's options have no \<open>context\<close> (as the default empty options),
  the element at index \<open>i\<close> is converted with the caller's options in which \<open>context\<close> is
  the string \<open>undefined[i]\<close>. For an iterator that yields \<open>n\<close> results and then completes,
  and for every element converter, the conversion is the element converter applied in
  order to each yielded value with exactly these options, up to its first error.
\<close>

theorem sequence_context_absent:
  assumes "opt_context opts = None" and "GetIterator h r = Iterator iter"
    and "\<forall>k<n. yields (iter k)" and "completes (iter n)" and "n < fuel"
  shows "createSequenceConverter h fuel converter (Object r) opts
           = Some (convert_all converter
                     (map (\<lambda>i. (yielded (iter i),
                                 opts\<lparr>opt_context := Some (''undefined['' @ decimal i @ '']'')\<rparr>))
                          [0..<n])
                     [])"
proof -
  have "createSequenceConverter h fuel converter (Object r) opts
          = sequence_loop fuel converter opts iter []"
    using assms(2) by (simp add: createSequenceConverter_def)
  also have "\<dots> = Some (convert_all converter
                     (map (\<lambda>i. (yielded (iter i), element_opts opts (length ([] :: 'a list) + i))) [0..<n])
                     [])"
    using assms(3-5) by (rule sequence_loop_elements)
  finally show ?thesis
    by (simp add: element_opts_absent [OF assms(1)])
qed

lemma iter_pq_steps:
  "\<forall>k<2. yields (iter_pq k)" "completes (iter_pq 2)"
  by (simp_all add: iter_pq_def property_def)

theorem sequence_context_absent_witness:
  "opt_context kEmptyObject = None \<and> GetIterator example_host 2 = Iterator iter_pq
   \<and> yields (iter_pq 0) \<and> yields (iter_pq 1) \<and> completes (iter_pq 2) \<and> (2::nat) < 3
   \<and> createSequenceConverter example_host 3 recording_converter (Object 2) kEmptyObject
       = Some (Inr [(String ''p'', kEmptyObject\<lparr>opt_context := Some ''undefined[0]''\<rparr>),
                    (String ''q'', kEmptyObject\<lparr>opt_context := Some ''undefined[1]''\<rparr>)])"
proof -
  have c: "opt_context kEmptyObject = None" by (simp add: kEmptyObject_def)
  have g: "GetIterator example_host 2 = Iterator iter_pq" by (simp add: example_host_def)
  have l: "(2::nat) < 3" by simp
  have u: "[0..<2] = [0, Suc 0]" by (simp add: upt_rec)
  have d: "decimal 0 = ''0''" "decimal (Suc 0) = ''1''" by code_simp+
  have y: "yields (iter_pq 0)" "yields (iter_pq 1)"
    by (simp_all add: iter_pq_def property_def)
  from sequence_context_absent [OF c g iter_pq_steps l, of recording_converter]
       c g iter_pq_steps(2) y
  show ?thesis
    by (simp add: u d iter_pq_def property_def recording_converter_def)
qed

lemma sequence_loop_prefix:
  assumes "\<forall>k<n. yields (iter k)
             \<and> (\<exists>y. converter (yielded (iter k)) (element_opts opts (length array + k)) = Inr y)"
    and "n < fuel"
  shows "\<exists>array'. sequence_loop fuel converter opts iter array
                     = sequence_loop (fuel - n) converter opts (\<lambda>k. iter (n + k)) array'"
  using assms
proof (induction n arbitrary: fuel iter array)
  case 0
  show ?case by (rule exI [of _ array]) simp
next
  case (Suc n)
  then obtain f where f: "fuel = Suc f" and nf: "n < f" by (cases fuel) auto
  from Suc.prems(1) have "yields (iter 0)"
    and "\<exists>y. converter (yielded (iter 0)) (element_opts opts (length array)) = Inr y"
    by auto
  then obtain d v y where r0: "iter 0 = Res_object d v" and nd: "property d \<noteq> Boolean True"
    and y: "converter (property v) (element_opts opts (length array)) = Inr y"
    by (cases "iter 0") auto
  let ?iter = "\<lambda>k. iter (Suc k)"
  have "\<forall>k<n. yields (?iter k)
          \<and> (\<exists>y'. converter (yielded (?iter k)) (element_opts opts (length (array @ [y]) + k)) = Inr y')"
    using Suc.prems(1) by force
  then have "\<exists>array'. sequence_loop f converter opts ?iter (array @ [y])
                         = sequence_loop (f - n) converter opts (\<lambda>k. ?iter (n + k)) array'"
    using nf by (rule Suc.IH)
  then show ?case by (simp add: f r0 nd y)
qed

lemma sequence_loop_stops:
  assumes "\<forall>k<n. yields (iter k)
             \<and> (\<exists>y. converter (yielded (iter k)) (element_opts opts (length array + k)) = Inr y)"
    and "n < fuel"
  shows "iter n = Res_undefined \<Longrightarrow>
           sequence_loop fuel converter opts iter array
             = Some (Inl (makeException ''can not be converted to sequence.'' opts))"
    and "iter n = Res_null \<Longrightarrow>
           sequence_loop fuel converter opts iter array = Some (Inl Host_TypeError)"
    and "iter n = Res_raises e \<Longrightarrow>
           sequence_loop fuel converter opts iter array = Some (Inl e)"
proof -
  obtain array' where a: "sequence_loop fuel converter opts iter array
                     = sequence_loop (fuel - n) converter opts (\<lambda>k. iter (n + k)) array'"
    using sequence_loop_prefix [OF assms] by blast
  obtain f where f: "fuel - n = Suc f" using assms(2) by (cases "fuel - n") auto
  show "iter n = Res_undefined \<Longrightarrow>
           sequence_loop fuel converter opts iter array
             = Some (Inl (makeException ''can not be converted to sequence.'' opts))"
    by (simp add: a f)
  show "iter n = Res_null \<Longrightarrow>
           sequence_loop fuel converter opts iter array = Some (Inl Host_TypeError)"
    by (simp add: a f)
  show "iter n = Res_raises e \<Longrightarrow>
           sequence_loop fuel converter opts iter array = Some (Inl e)"
    by (simp add: a f)
qed

text \<open>
  Claim C7, as the code has it. The conversion fails with the error made from
  \<open>can not be converted to sequence.\<close> and the caller's options in three cases: the input
  is not an Object; the expression \<open>V?.[SymbolIterator]?.()\<close> is \<open>undefined\<close>; or a
  \<open>next()\<close> step gives \<open>undefined\<close>, after any number of steps that yielded an element
  the element converter accepted. The other outcomes are not turned into that error. An
  error raised by that expression, or by a step, is raised as it is. A step that gives
  \<open>null\<close> raises the language's own \<open>TypeError\<close>, which is a different error. Every
  other result is taken without a check of its shape: it ends the conversion when its
  \<open>done\<close> is \<open>true\<close>, and otherwise yields what reading its \<open>value\<close> gives, so that
  the empty object \<open>{}\<close> yields \<open>undefined\<close>; an iterator of such results that then
  completes converts to the list of its converted elements.
\<close>

theorem sequence_undefined_result:
  "(type V \<noteq> ''Object'' \<longrightarrow>
      createSequenceConverter h fuel converter V opts
        = Some (Inl (makeException ''can not be converted to sequence.'' opts)))
   \<and> (GetIterator h r = No_iterator \<longrightarrow>
        createSequenceConverter h fuel converter (Object r) opts
          = Some (Inl (makeException ''can not be converted to sequence.'' opts)))
   \<and> (GetIterator h r = Iterator_raises e \<longrightarrow>
        createSequenceConverter h fuel converter (Object r) opts = Some (Inl e))
   \<and> (GetIterator h r = Iterator iter
        \<and> (\<forall>k<n. yields (iter k)
               \<and> (\<exists>y. converter (yielded (iter k)) (element_opts opts k) = Inr y))
        \<and> n < fuel \<longrightarrow>
          (iter n = Res_undefined \<longrightarrow>
             createSequenceConverter h fuel converter (Object r) opts
               = Some (Inl (makeException ''can not be converted to sequence.'' opts)))
          \<and> (iter n = Res_null \<longrightarrow>
               createSequenceConverter h fuel converter (Object r) opts = Some (Inl Host_TypeError))
          \<and> (iter n = Res_raises e \<longrightarrow>
               createSequenceConverter h fuel converter (Object r) opts = Some (Inl e)))
   \<and> (GetIterator h r = Iterator iter \<and> (\<forall>k<n. yields (iter k)) \<and> completes (iter n)
        \<and> n < fuel \<longrightarrow>
          createSequenceConverter h fuel converter (Object r) opts
            = Some (convert_all converter
                      (map (\<lambda>i. (yielded (iter i), element_opts opts i)) [0..<n]) []))
   \<and> yields (Res_object None None) \<and> yielded (Res_object None None) = Undefined
   \<and> makeException ''can not be converted to sequence.'' opts \<noteq> Host_TypeError"
proof -
  let ?E = "makeException ''can not be converted to sequence.'' opts"
  let ?cs = "createSequenceConverter h fuel converter"
  have not_object: "type V \<noteq> ''Object'' \<longrightarrow> ?cs V opts = Some (Inl ?E)"
    by (simp add: createSequenceConverter_def)
  have none: "GetIterator h r = No_iterator \<longrightarrow> ?cs (Object r) opts = Some (Inl ?E)"
    by (simp add: createSequenceConverter_def)
  have raised: "GetIterator h r = Iterator_raises e \<longrightarrow> ?cs (Object r) opts = Some (Inl e)"
    by (simp add: createSequenceConverter_def)
  have loop: "?cs (Object r) opts = sequence_loop fuel converter opts iter []"
    if "GetIterator h r = Iterator iter"
    using that by (simp add: createSequenceConverter_def)
  have stops: "(iter n = Res_undefined \<longrightarrow> ?cs (Object r) opts = Some (Inl ?E))
          \<and> (iter n = Res_null \<longrightarrow> ?cs (Object r) opts = Some (Inl Host_TypeError))
          \<and> (iter n = Res_raises e \<longrightarrow> ?cs (Object r) opts = Some (Inl e))"
    if g: "GetIterator h r = Iterator iter"
      and p: "\<forall>k<n. yields (iter k)
               \<and> (\<exists>y. converter (yielded (iter k)) (element_opts opts k) = Inr y)"
      and n: "n < fuel"
  proof -
    have p': "\<forall>k<n. yields (iter k)
               \<and> (\<exists>y. converter (yielded (iter k))
                         (element_opts opts (length ([] :: 'a list) + k)) = Inr y)"
      using p by simp
    from sequence_loop_stops [OF p' n] show ?thesis
      by (simp add: loop [OF g])
  qed
  have elements: "?cs (Object r) opts
            = Some (convert_all converter
                      (map (\<lambda>i. (yielded (iter i), element_opts opts i)) [0..<n]) [])"
    if g: "GetIterator h r = Iterator iter" and y: "\<forall>k<n. yields (iter k)"
      and c: "completes (iter n)" and n: "n < fuel"
    using sequence_loop_elements [OF y c n, of converter opts "[]"] by (simp add: loop [OF g])
  have shapeless: "yields (Res_object None None)" "yielded (Res_object None None) = Undefined"
    by (simp_all add: property_def)
  have other: "?E \<noteq> Host_TypeError"
    by (simp add: makeException_def codedTypeError_def Let_def)
  from not_object none raised stops elements shapeless other show ?thesis
    by (intro conjI impI) blast+
qed

theorem sequence_undefined_result_witness:
  "type (String ''s'') \<noteq> ''Object''
   \<and> createSequenceConverter example_host 0 any_converter (String ''s'') kEmptyObject
       = Some (Inl (Coded_TypeError ''Value can not be converted to sequence.'' ''ERR_INVALID_ARG_TYPE''))
   \<and> GetIterator example_host 7 = No_iterator
   \<and> createSequenceConverter example_host 0 any_converter (Object 7) kEmptyObject
       = Some (Inl (Coded_TypeError ''Value can not be converted to sequence.'' ''ERR_INVALID_ARG_TYPE''))
   \<and> GetIterator example_host 5 = Iterator_raises Host_TypeError
   \<and> createSequenceConverter example_host 0 any_converter (Object 5) kEmptyObject
       = Some (Inl Host_TypeError)
   \<and> GetIterator example_host 4 = Iterator iter_p_then_undefined
   \<and> yields (iter_p_then_undefined 0)
   \<and> any_converter (yielded (iter_p_then_undefined 0)) (element_opts kEmptyObject 0)
       = Inr (String ''p'')
   \<and> (1::nat) < 2
   \<and> iter_p_then_undefined 1 = Res_undefined
   \<and> createSequenceConverter example_host 2 any_converter (Object 4) kEmptyObject
       = Some (Inl (Coded_TypeError ''Value can not be converted to sequence.'' ''ERR_INVALID_ARG_TYPE''))
   \<and> GetIterator example_host 6 = Iterator iter_p_then_null
   \<and> yields (iter_p_then_null 0)
   \<and> any_converter (yielded (iter_p_then_null 0)) (element_opts kEmptyObject 0) = Inr (String ''p'')
   \<and> iter_p_then_null 1 = Res_null
   \<and> createSequenceConverter example_host 2 any_converter (Object 6) kEmptyObject
       = Some (Inl Host_TypeError)
   \<and> GetIterator example_host 8 = Iterator iter_p_then_raises
   \<and> yields (iter_p_then_raises 0)
   \<and> any_converter (yielded (iter_p_then_raises 0)) (element_opts kEmptyObject 0) = Inr (String ''p'')
   \<and> iter_p_then_raises 1 = Res_raises Host_TypeError
   \<and> createSequenceConverter example_host 2 any_converter (Object 8) kEmptyObject
       = Some (Inl Host_TypeError)
   \<and> GetIterator example_host 0 = Iterator iter_shapeless
   \<and> yields (iter_shapeless 0) \<and> completes (iter_shapeless 1)
   \<and> createSequenceConverter example_host 2 any_converter (Object 0) kEmptyObject
       = Some (Inr [Undefined])"
proof -
  let ?E = "Coded_TypeError ''Value can not be converted to sequence.'' ''ERR_INVALID_ARG_TYPE''"
  have e: "makeException ''can not be converted to sequence.'' kEmptyObject = ?E"
    by (simp add: makeException_def codedTypeError_def kEmptyObject_def)
  have g: "GetIterator example_host 7 = No_iterator"
    "GetIterator example_host 5 = Iterator_raises Host_TypeError"
    "GetIterator example_host 4 = Iterator iter_p_then_undefined"
    "GetIterator example_host 6 = Iterator iter_p_then_null"
    "GetIterator example_host 8 = Iterator iter_p_then_raises"
    "GetIterator example_host 0 = Iterator iter_shapeless"
    by (simp_all add: example_host_def)
  have y: "yields (iter_p_then_undefined 0)"
    "any_converter (yielded (iter_p_then_undefined 0)) (element_opts kEmptyObject 0)
       = Inr (String ''p'')"
    "yields (iter_p_then_null 0)"
    "any_converter (yielded (iter_p_then_null 0)) (element_opts kEmptyObject 0) = Inr (String ''p'')"
    "yields (iter_p_then_raises 0)"
    "any_converter (yielded (iter_p_then_raises 0)) (element_opts kEmptyObject 0) = Inr (String ''p'')"
    "yields (iter_shapeless 0)" "completes (iter_shapeless 1)"
    by (simp_all add: iter_p_then_undefined_def iter_p_then_null_def iter_p_then_raises_def
        iter_shapeless_def property_def any_converter_def any_def)
  have s: "iter_p_then_undefined 1 = Res_undefined" "iter_p_then_null 1 = Res_null"
    "iter_p_then_raises 1 = Res_raises Host_TypeError"
    by (simp_all add: iter_p_then_undefined_def iter_p_then_null_def iter_p_then_raises_def)
  have l: "(1::nat) < 2" by simp
  have p: "\<forall>k<1. yields (iter_p_then_undefined k)
          \<and> (\<exists>y. any_converter (yielded (iter_p_then_undefined k)) (element_opts kEmptyObject k) = Inr y)"
    "\<forall>k<1. yields (iter_p_then_null k)
          \<and> (\<exists>y. any_converter (yielded (iter_p_then_null k)) (element_opts kEmptyObject k) = Inr y)"
    "\<forall>k<1. yields (iter_p_then_raises k)
          \<and> (\<exists>y. any_converter (yielded (iter_p_then_raises k)) (element_opts kEmptyObject k) = Inr y)"
    "\<forall>k<1. yields (iter_shapeless k)"
    using y by simp_all
  note t = sequence_undefined_result [where h = example_host and converter = any_converter
      and opts = kEmptyObject and V = "String ''s''"]
  from t [where fuel = 0 and r = 7 and e = Host_TypeError and iter = iter_shapeless and n = 0] g(1)
  have 1: "createSequenceConverter example_host 0 any_converter (String ''s'') kEmptyObject
             = Some (Inl ?E)"
    "createSequenceConverter example_host 0 any_converter (Object 7) kEmptyObject = Some (Inl ?E)"
    by (simp_all add: e)
  from t [where fuel = 0 and r = 5 and e = Host_TypeError and iter = iter_shapeless and n = 0] g(2)
  have 2: "createSequenceConverter example_host 0 any_converter (Object 5) kEmptyObject
             = Some (Inl Host_TypeError)"
    by simp
  from t [where fuel = 2 and r = 4 and e = Host_TypeError and iter = iter_p_then_undefined and n = 1]
    g(3) p(1) s(1)
  have 3: "createSequenceConverter example_host 2 any_converter (Object 4) kEmptyObject
             = Some (Inl ?E)"
    by (simp add: e)
  from t [where fuel = 2 and r = 6 and e = Host_TypeError and iter = iter_p_then_null and n = 1]
    g(4) p(2) s(2)
  have 4: "createSequenceConverter example_host 2 any_converter (Object 6) kEmptyObject
             = Some (Inl Host_TypeError)"
    by simp
  from t [where fuel = 2 and r = 8 and e = Host_TypeError and iter = iter_p_then_raises and n = 1]
    g(5) p(3) s(3)
  have 5: "createSequenceConverter example_host 2 any_converter (Object 8) kEmptyObject
             = Some (Inl Host_TypeError)"
    by simp
  have u: "[0..<1] = [0]" by simp
  from t [where fuel = 2 and r = 0 and e = Host_TypeError and iter = iter_shapeless and n = 1]
    g(6) p(4) y(8)
  have 6: "createSequenceConverter example_host 2 any_converter (Object 0) kEmptyObject
             = Some (Inr [Undefined])"
    by (simp add: u iter_shapeless_def property_def any_converter_def any_def)
  from 1 g y s l 2 3 4 5 6 show ?thesis by simp
qed

text \<open>
  Claim C7 as stated fails: a result of \<open>next()\<close> without the shape is not rejected with
  that error. The empty object \<open>{}\<close> counts
  as a step that is not done and yields \<open>undefined\<close>, so the conversion of object 0
  succeeds with the one element \<open>undefined\<close>; the result \<open>null\<close> makes the read of
  \<open>res.done\<close> raise the language's own \<open>TypeError\<close>, which is not the error above.
\<close>

theorem sequence_shapeless_counterexample:
  "iter_shapeless 0 = Res_object None None
   \<and> createSequenceConverter example_host 2 any_converter (Object 0) kEmptyObject
       = Some (Inr [Undefined])
   \<and> iter_null 0 = Res_null
   \<and> createSequenceConverter example_host 1 any_converter (Object 1) kEmptyObject
       = Some (Inl Host_TypeError)"
  by (simp add: createSequenceConverter_def example_host_def iter_shapeless_def iter_null_def
      any_converter_def any_def property_def numeral_2_eq_2)

end
